theory Spec2Isabelle
  imports Complex_Main
begin

section \<open>Python values the gateway works with\<close>

text \<open>
  Strings are \<^typ>\<open>string\<close>. \<open>str.startswith\<close>, the slice \<open>s[-8:]\<close>, \<open>str.lower\<close>,
  \<open>str.upper\<close> (on ASCII letters), the substring test \<open>needle in s\<close> and
  \<open>str.split(sep)\<close> for a one-character separator are written out below.
\<close>

definition startswith :: "string \<Rightarrow> string \<Rightarrow> bool" where
  "startswith s p = (take (length p) s = p)"

definition last_chars :: "nat \<Rightarrow> string \<Rightarrow> string" where
  "last_chars n s = drop (length s - n) s"

definition lower_char :: "char \<Rightarrow> char" where
  "lower_char c =
     (if 65 \<le> (of_char c :: nat) \<and> (of_char c :: nat) \<le> 90
      then char_of ((of_char c :: nat) + 32) else c)"

definition upper_char :: "char \<Rightarrow> char" where
  "upper_char c =
     (if 97 \<le> (of_char c :: nat) \<and> (of_char c :: nat) \<le> 122
      then char_of ((of_char c :: nat) - 32) else c)"

definition lower :: "string \<Rightarrow> string" where
  "lower s = map lower_char s"

definition upper :: "string \<Rightarrow> string" where
  "upper s = map upper_char s"

fun contains :: "string \<Rightarrow> string \<Rightarrow> bool" where
  "contains needle [] = (needle = [])"
| "contains needle (c # cs) = (startswith (c # cs) needle \<or> contains needle cs)"

text \<open>
  \<open>split_acc sep cur s\<close> is \<open>s.split(sep)\<close> with \<open>cur\<close> the (reversed) segment read so
  far: a separator closes the current segment, the end of the string closes the last
  one, so the result always has one more element than \<open>s\<close> has separators.
\<close>

fun split_acc :: "char \<Rightarrow> string \<Rightarrow> string \<Rightarrow> string list" where
  "split_acc sep cur [] = [rev cur]"
| "split_acc sep cur (c # cs) =
     (if c = sep then rev cur # split_acc sep [] cs else split_acc sep (c # cur) cs)"

definition str_split :: "string \<Rightarrow> char \<Rightarrow> string list" where
  "str_split s sep = split_acc sep [] s"

text \<open>
  Instants (\<open>datetime\<close>) are counted in microseconds, the resolution of Python's
  \<open>datetime\<close>; \<open>timedelta(seconds=n)\<close> is \<open>n * 1000000\<close>.
\<close>

type_synonym datetime = int

definition timedelta_seconds :: "int \<Rightarrow> int" where
  "timedelta_seconds n = n * 1000000"

text \<open>
  One reading of the clock, as the error handler uses it: \<open>str(int(time.time() * 1000))\<close>
  and \<open>datetime.utcnow().isoformat()\<close>.
\<close>

record clock =
  time_ms_text :: string
  utcnow_iso :: string

section \<open>Exceptions\<close>

text \<open>
  An exception is its class and its text \<open>str(exception)\<close>. The classes are the ones the
  gateway tests with \<open>isinstance\<close>, those Python raises on a wrong attribute or
  subscript, FastAPI's \<open>HTTPException\<close> (with its status code; the text is its detail),
  and one class for every other exception. \<open>HTTPStatusError\<close> carries
  \<open>response.status_code\<close>.
\<close>

datatype exception_class =
    PermissionError
  | ValueError
  | AsyncioTimeoutError
  | HttpxTimeoutException
  | HttpxConnectTimeout
  | HttpxReadTimeout
  | HttpxNetworkError
  | HttpxConnectError
  | ConnectionError
  | HTTPStatusError int
  | CircuitBreakerError
  | TypeError
  | AttributeError
  | OverflowError
  | HTTPException int
  | OtherException

datatype py_exception = Exc exception_class string

fun exc_class :: "py_exception \<Rightarrow> exception_class" where
  "exc_class (Exc k s) = k"

fun str_exc :: "py_exception \<Rightarrow> string" where
  "str_exc (Exc k s) = s"

text \<open>\<open>isinstance(exception, (PermissionError, ValueError))\<close>\<close>

fun is_permission_or_value_error :: "exception_class \<Rightarrow> bool" where
  "is_permission_or_value_error PermissionError = True"
| "is_permission_or_value_error ValueError = True"
| "is_permission_or_value_error k = False"

text \<open>
  \<open>isinstance(exception, (asyncio.TimeoutError, httpx.TimeoutException))\<close>:
  \<open>ConnectTimeout\<close> and \<open>ReadTimeout\<close> are subclasses of \<open>httpx.TimeoutException\<close>.
\<close>

fun is_timeout_error :: "exception_class \<Rightarrow> bool" where
  "is_timeout_error AsyncioTimeoutError = True"
| "is_timeout_error HttpxTimeoutException = True"
| "is_timeout_error HttpxConnectTimeout = True"
| "is_timeout_error HttpxReadTimeout = True"
| "is_timeout_error k = False"

text \<open>
  \<open>isinstance(exception, (httpx.NetworkError, ConnectionError))\<close>: \<open>ConnectError\<close> is a
  subclass of \<open>httpx.NetworkError\<close>.
\<close>

fun is_network_error :: "exception_class \<Rightarrow> bool" where
  "is_network_error HttpxNetworkError = True"
| "is_network_error HttpxConnectError = True"
| "is_network_error ConnectionError = True"
| "is_network_error k = False"

fun is_http_exception :: "exception_class \<Rightarrow> bool" where
  "is_http_exception (HTTPException n) = True"
| "is_http_exception k = False"

section \<open>Error categories, severities and the classifier\<close>

datatype ErrorCategory =
    AUTHENTICATION
  | AUTHORIZATION
  | VALIDATION
  | TIMEOUT
  | RATE_LIMIT
  | AZURE_ML_ERROR
  | NETWORK_ERROR
  | INTERNAL_ERROR
  | CIRCUIT_BREAKER
  | UNKNOWN

datatype ErrorSeverity = LOW | MEDIUM | HIGH | CRITICAL

fun category_value :: "ErrorCategory \<Rightarrow> string" where
  "category_value AUTHENTICATION = ''authentication''"
| "category_value AUTHORIZATION = ''authorization''"
| "category_value VALIDATION = ''validation''"
| "category_value TIMEOUT = ''timeout''"
| "category_value RATE_LIMIT = ''rate_limit''"
| "category_value AZURE_ML_ERROR = ''azure_ml_error''"
| "category_value NETWORK_ERROR = ''network_error''"
| "category_value INTERNAL_ERROR = ''internal_error''"
| "category_value CIRCUIT_BREAKER = ''circuit_breaker''"
| "category_value UNKNOWN = ''unknown''"

fun severity_value :: "ErrorSeverity \<Rightarrow> string" where
  "severity_value LOW = ''low''"
| "severity_value MEDIUM = ''medium''"
| "severity_value HIGH = ''high''"
| "severity_value CRITICAL = ''critical''"

text \<open>
  \<open>ErrorHandler._classify_error\<close>: the tests in the order of the source. A status code
  that none of the \<open>HTTPStatusError\<close> branches takes falls through to the tests after it.
\<close>

definition classify_http_status :: "int \<Rightarrow> (ErrorCategory \<times> ErrorSeverity) option" where
  "classify_http_status status =
     (if status = 401 then Some (AUTHENTICATION, MEDIUM)
      else if status = 403 then Some (AUTHORIZATION, MEDIUM)
      else if status = 429 then Some (RATE_LIMIT, LOW)
      else if 400 \<le> status \<and> status < 500 then Some (VALIDATION, LOW)
      else if 500 \<le> status \<and> status < 600 then Some (AZURE_ML_ERROR, HIGH)
      else None)"

definition classify_rest :: "exception_class \<Rightarrow> ErrorCategory \<times> ErrorSeverity" where
  "classify_rest k =
     (if k = CircuitBreakerError then (CIRCUIT_BREAKER, HIGH)
      else if is_network_error k then (NETWORK_ERROR, MEDIUM)
      else (UNKNOWN, MEDIUM))"

definition classify_error :: "py_exception \<Rightarrow> ErrorCategory \<times> ErrorSeverity" where
  "classify_error e =
     (if is_permission_or_value_error (exc_class e) \<and> contains ''auth'' (lower (str_exc e))
      then (AUTHENTICATION, MEDIUM)
      else if is_timeout_error (exc_class e) then (TIMEOUT, MEDIUM)
      else (case exc_class e of
              HTTPStatusError status \<Rightarrow>
                (case classify_http_status status of
                   Some r \<Rightarrow> r
                 | None \<Rightarrow> classify_rest (exc_class e))
            | k \<Rightarrow> classify_rest k))"

section \<open>Error responses\<close>

text \<open>
  The handler is written for an \<open>ErrorContext\<close> (error_handler.py); the gateway's
  endpoints hand it their \<open>RequestContext\<close> (api_gateway.py), a different dataclass.
  Python checks nothing at the call, so a context is either of the two, and reading an
  attribute the object does not have raises \<open>AttributeError\<close>.
\<close>

record ErrorContext =
  ec_request_id :: string
  ec_correlation_id :: "string option"
  ec_user_id :: "string option"
  ec_endpoint :: string
  ec_method :: string
  ec_timestamp :: datetime
  ec_processing_time :: real
  ec_retry_count :: nat

record RequestContext =
  rc_request_id :: string
  rc_correlation_id :: "string option"
  rc_start_time :: real
  rc_legacy_format :: bool
  rc_auth_token :: "string option"

datatype handler_context =
    ErrorContextObj ErrorContext
  | RequestContextObj RequestContext

fun ctx_request_id :: "handler_context \<Rightarrow> string" where
  "ctx_request_id (ErrorContextObj c) = ec_request_id c"
| "ctx_request_id (RequestContextObj c) = rc_request_id c"

fun ctx_correlation_id :: "handler_context \<Rightarrow> string option" where
  "ctx_correlation_id (ErrorContextObj c) = ec_correlation_id c"
| "ctx_correlation_id (RequestContextObj c) = rc_correlation_id c"

fun ctx_endpoint :: "handler_context \<Rightarrow> py_exception + string" where
  "ctx_endpoint (ErrorContextObj c) = Inr (ec_endpoint c)"
| "ctx_endpoint (RequestContextObj c) =
     Inl (Exc AttributeError ''RequestContext object has no attribute endpoint'')"

record ErrorResponse =
  error_id :: string
  status_code :: int
  error_code :: string
  message :: string
  detail :: "string option"
  category :: ErrorCategory
  severity :: ErrorSeverity
  timestamp :: string
  request_id :: "string option"
  correlation_id :: "string option"
  retry_after :: "int option"
  support_info :: "(string \<times> string) list option"

fun status_code_map :: "ErrorCategory \<Rightarrow> int option" where
  "status_code_map AUTHENTICATION = Some 401"
| "status_code_map AUTHORIZATION = Some 403"
| "status_code_map VALIDATION = Some 400"
| "status_code_map TIMEOUT = Some 408"
| "status_code_map RATE_LIMIT = Some 429"
| "status_code_map AZURE_ML_ERROR = Some 502"
| "status_code_map NETWORK_ERROR = Some 503"
| "status_code_map CIRCUIT_BREAKER = Some 503"
| "status_code_map INTERNAL_ERROR = Some 500"
| "status_code_map UNKNOWN = Some 500"

fun message_map :: "ErrorCategory \<Rightarrow> string option" where
  "message_map AUTHENTICATION = Some ''Authentication failed''"
| "message_map AUTHORIZATION = Some ''Access denied''"
| "message_map VALIDATION = Some ''Invalid request data''"
| "message_map TIMEOUT = Some ''Request timeout''"
| "message_map RATE_LIMIT = Some ''Rate limit exceeded''"
| "message_map AZURE_ML_ERROR = Some ''ML service temporarily unavailable''"
| "message_map NETWORK_ERROR = Some ''Network connectivity issue''"
| "message_map CIRCUIT_BREAKER = Some ''Service temporarily unavailable''"
| "message_map INTERNAL_ERROR = Some ''Internal server error''"
| "message_map UNKNOWN = Some ''An unexpected error occurred''"

definition dict_get :: "('k \<Rightarrow> 'v option) \<Rightarrow> 'k \<Rightarrow> 'v \<Rightarrow> 'v" where
  "dict_get d k dflt = (case d k of Some v \<Rightarrow> v | None \<Rightarrow> dflt)"

definition support_information :: "(string \<times> string) list" where
  "support_information =
     [(''documentation'', ''https://docs.company.com/legacy-integration''),
      (''support_email'', ''ml-support@company.com''),
      (''status_page'', ''https://status.company.com'')]"

text \<open>\<open>ErrorHandler._create_error_response\<close>\<close>

definition create_error_response ::
  "clock \<Rightarrow> py_exception \<Rightarrow> ErrorCategory \<Rightarrow> ErrorSeverity \<Rightarrow> handler_context \<Rightarrow> ErrorResponse"
where
  "create_error_response clk e cat sev c =
     \<lparr> error_id = ''err_'' @ time_ms_text clk @ ''_'' @ last_chars 8 (ctx_request_id c),
       status_code = dict_get status_code_map cat 500,
       error_code = upper (category_value cat) @ ''_'' @ upper (severity_value sev),
       message = dict_get message_map cat ''An error occurred'',
       detail = (if sev = HIGH \<or> sev = CRITICAL then Some (str_exc e) else None),
       category = cat,
       severity = sev,
       timestamp = utcnow_iso clk,
       request_id = Some (ctx_request_id c),
       correlation_id = ctx_correlation_id c,
       retry_after = (if cat = RATE_LIMIT \<or> cat = CIRCUIT_BREAKER then Some 60 else None),
       support_info = Some support_information \<rparr>"

text \<open>
  The response \<open>handle_prediction_error\<close> builds in its own \<open>except\<close> branch, \<open>e\<close> being
  the exception raised inside the handler.
\<close>

definition fallback_response :: "clock \<Rightarrow> py_exception \<Rightarrow> handler_context \<Rightarrow> ErrorResponse" where
  "fallback_response clk e c =
     \<lparr> error_id = ''err_'' @ time_ms_text clk,
       status_code = 500,
       error_code = ''HANDLER_ERROR'',
       message = ''Internal error in error handler'',
       detail = Some (str_exc e),
       category = INTERNAL_ERROR,
       severity = CRITICAL,
       timestamp = utcnow_iso clk,
       request_id = Some (ctx_request_id c),
       correlation_id = ctx_correlation_id c,
       retry_after = None,
       support_info = None \<rparr>"

section \<open>Error metrics and the error log\<close>

record ErrorMetrics =
  total_errors :: int
  errors_by_category :: "ErrorCategory \<Rightarrow> int option"
  errors_by_severity :: "ErrorSeverity \<Rightarrow> int option"
  last_error_time :: "string option"
  error_rate_1min :: int
  error_rate_5min :: int
  error_rate_15min :: int

definition new_ErrorMetrics :: ErrorMetrics where
  "new_ErrorMetrics =
     \<lparr> total_errors = 0, errors_by_category = Map.empty, errors_by_severity = Map.empty,
       last_error_time = None, error_rate_1min = 0, error_rate_5min = 0,
       error_rate_15min = 0 \<rparr>"

text \<open>
  \<open>if k not in d: d[k] = 0\<close> followed by \<open>d[k] += 1\<close>.
\<close>

definition increment :: "('k \<Rightarrow> int option) \<Rightarrow> 'k \<Rightarrow> ('k \<Rightarrow> int option)" where
  "increment d k =
     (let d0 = (if d k = None then d(k \<mapsto> 0) else d)
      in d0(k \<mapsto> dict_get d0 k 0 + 1))"

text \<open>\<open>ErrorHandler._record_error_metrics\<close>\<close>

definition record_error_metrics ::
  "clock \<Rightarrow> ErrorMetrics \<Rightarrow> ErrorCategory \<Rightarrow> ErrorSeverity \<Rightarrow> ErrorMetrics"
where
  "record_error_metrics clk m cat sev =
     m\<lparr> total_errors := total_errors m + 1,
        last_error_time := Some (utcnow_iso clk),
        errors_by_category := increment (errors_by_category m) cat,
        errors_by_severity := increment (errors_by_severity m) sev,
        error_rate_1min := min (total_errors m + 1) 60 \<rparr>"

record log_entry =
  le_timestamp :: string
  le_exception :: py_exception
  le_error_response :: ErrorResponse
  le_context :: handler_context

record ErrorHandler =
  error_metrics :: ErrorMetrics
  error_log :: "log_entry list"

definition new_ErrorHandler :: ErrorHandler where
  "new_ErrorHandler = \<lparr> error_metrics = new_ErrorMetrics, error_log = [] \<rparr>"

text \<open>
  \<open>ErrorHandler._log_error\<close>. Building \<open>log_data\<close> reads \<open>context.endpoint\<close> (then
  \<open>method\<close>, \<open>processing_time\<close>, \<open>retry_count\<close>, \<open>user_id\<close>): on a \<open>RequestContext\<close>
  the first of these raises before anything is logged or stored. Otherwise the entry
  is appended and the log cut to its last 1000 entries.
\<close>

definition keep_recent :: "log_entry list \<Rightarrow> log_entry list" where
  "keep_recent l = (if length l > 1000 then drop (length l - 1000) l else l)"

definition log_error ::
  "clock \<Rightarrow> ErrorHandler \<Rightarrow> py_exception \<Rightarrow> ErrorResponse \<Rightarrow> handler_context
     \<Rightarrow> py_exception + ErrorHandler"
where
  "log_error clk h e er c =
     (case ctx_endpoint c of
        Inl a \<Rightarrow> Inl a
      | Inr ep \<Rightarrow>
          Inr (h\<lparr> error_log :=
                     keep_recent (error_log h @
                       [\<lparr> le_timestamp = utcnow_iso clk, le_exception = e,
                          le_error_response = er, le_context = c \<rparr>]) \<rparr>))"

text \<open>
  \<open>ErrorHandler.handle_prediction_error\<close>: classify, build the response, record the
  metrics, log; an exception raised on the way is caught and answered with the fallback
  response. The metrics were updated before \<open>_log_error\<close> ran, so they stay updated
  when it raises. \<open>_check_alert_conditions\<close> only writes to the logger inside its own
  \<open>try\<close>; it changes no state and raises nothing, and is left out.
\<close>

definition handle_prediction_error ::
  "clock \<Rightarrow> ErrorHandler \<Rightarrow> py_exception \<Rightarrow> handler_context \<Rightarrow> ErrorResponse \<times> ErrorHandler"
where
  "handle_prediction_error clk h e c =
     (let cat = fst (classify_error e);
          sev = snd (classify_error e);
          er = create_error_response clk e cat sev c;
          h1 = h\<lparr> error_metrics := record_error_metrics clk (error_metrics h) cat sev \<rparr>
      in case log_error clk h1 e er c of
           Inr h2 \<Rightarrow> (er, h2)
         | Inl fault \<Rightarrow> (fallback_response clk fault c, h1))"

section \<open>The gateway's endpoints (api_gateway.py)\<close>

record LegacyPredictionResponse =
  lp_prediction :: "real option"
  lp_confidence :: "real option"
  lp_model_version :: "string option"
  lp_request_id :: string
  lp_timestamp :: string
  lp_status :: string

datatype py_value = NoneV | BoolV bool | IntV int | StrV string

text \<open>
  Both endpoints read the handler's answer as \<open>error_response["status_code"]\<close> and
  \<open>error_response["detail"]\<close>. \<open>ErrorResponse\<close> is a plain \<open>@dataclass\<close>: it defines no
  \<open>__getitem__\<close>, so the subscript raises \<open>TypeError\<close> whatever the key.
\<close>

definition getitem_ErrorResponse :: "ErrorResponse \<Rightarrow> string \<Rightarrow> py_exception + py_value" where
  "getitem_ErrorResponse er k = Inl (Exc TypeError ''ErrorResponse object is not subscriptable'')"

text \<open>\<open>HTTPException(status_code=sc, detail=d)\<close>\<close>

definition http_exception :: "py_value \<Rightarrow> py_value \<Rightarrow> py_exception" where
  "http_exception sc d =
     Exc (HTTPException (case sc of IntV n \<Rightarrow> n | _ \<Rightarrow> 0)) (case d of StrV t \<Rightarrow> t | _ \<Rightarrow> [])"

text \<open>
  \<open>predict\<close>, from the outcome \<open>body\<close> of its \<open>try\<close> block (the request transformed, the
  endpoint and headers looked up, \<open>call_azure_ml_api\<close> awaited, the answer transformed):
  a value is returned, an \<open>HTTPException\<close> is raised again, and every other exception
  goes to the error handler, with the endpoint's own \<open>RequestContext\<close>.
\<close>

definition predict ::
  "clock \<Rightarrow> ErrorHandler \<Rightarrow> RequestContext \<Rightarrow> py_exception + LegacyPredictionResponse
     \<Rightarrow> (py_exception + LegacyPredictionResponse) \<times> ErrorHandler"
where
  "predict clk h ctx body =
     (case body of
        Inr legacy_response \<Rightarrow> (Inr legacy_response, h)
      | Inl e \<Rightarrow>
          if is_http_exception (exc_class e) then (Inl e, h)
          else
            (case handle_prediction_error clk h e (RequestContextObj ctx) of
               (error_response, h') \<Rightarrow>
                 (case getitem_ErrorResponse error_response ''status_code'' of
                    Inl t \<Rightarrow> (Inl t, h')
                  | Inr sc \<Rightarrow>
                      (case getitem_ErrorResponse error_response ''detail'' of
                         Inl t \<Rightarrow> (Inl t, h')
                       | Inr d \<Rightarrow> (Inl (http_exception sc d), h')))))"

text \<open>
  An element of \<open>processed_responses\<close>: the dictionary built for a failed request, or
  the \<open>LegacyPredictionResponse\<close> of a successful one.
\<close>

record error_item =
  ei_error :: bool
  ei_status_code :: py_value
  ei_detail :: py_value
  ei_request_index :: nat

datatype processed_response =
    ErrorItem error_item
  | Prediction LegacyPredictionResponse

text \<open>
  \<open>r.get("error")\<close>, as a truth value: a dictionary answers with its entry; a
  \<open>LegacyPredictionResponse\<close> is a pydantic model, which has no attribute \<open>get\<close>.
\<close>

fun get_error :: "processed_response \<Rightarrow> py_exception + bool" where
  "get_error (ErrorItem d) = Inr (ei_error d)"
| "get_error (Prediction p) =
     Inl (Exc AttributeError ''LegacyPredictionResponse object has no attribute get'')"

text \<open>
  The comprehension \<open>[r for r in processed_responses if keep(r.get("error"))]\<close>: the first
  element whose test raises ends it.
\<close>

fun select_responses ::
  "(bool \<Rightarrow> bool) \<Rightarrow> processed_response list \<Rightarrow> py_exception + processed_response list"
where
  "select_responses keep [] = Inr []"
| "select_responses keep (r # rs) =
     (case get_error r of
        Inl a \<Rightarrow> Inl a
      | Inr b \<Rightarrow>
          (case select_responses keep rs of
             Inl a \<Rightarrow> Inl a
           | Inr l \<Rightarrow> Inr (if keep b then r # l else l)))"

text \<open>
  The loop over \<open>enumerate(responses)\<close>, where \<open>responses\<close> is what \<open>asyncio.gather\<close>
  returned with \<open>return_exceptions=True\<close>: one entry per request, in the order of the
  requests, an exception where the worker raised.
\<close>

fun process_responses ::
  "clock \<Rightarrow> RequestContext \<Rightarrow> nat \<Rightarrow> (py_exception + LegacyPredictionResponse) list
     \<Rightarrow> processed_response list \<Rightarrow> ErrorHandler
     \<Rightarrow> (py_exception + processed_response list) \<times> ErrorHandler"
where
  "process_responses clk ctx i [] processed h = (Inr processed, h)"
| "process_responses clk ctx i (Inr response # rest) processed h =
     process_responses clk ctx (i + 1) rest (processed @ [Prediction response]) h"
| "process_responses clk ctx i (Inl e # rest) processed h =
     (case handle_prediction_error clk h e (RequestContextObj ctx) of
        (error_response, h') \<Rightarrow>
          (case getitem_ErrorResponse error_response ''status_code'' of
             Inl t \<Rightarrow> (Inl t, h')
           | Inr sc \<Rightarrow>
               (case getitem_ErrorResponse error_response ''detail'' of
                  Inl t \<Rightarrow> (Inl t, h')
                | Inr d \<Rightarrow>
                    process_responses clk ctx (i + 1) rest
                      (processed @
                         [ErrorItem \<lparr> ei_error = True, ei_status_code = sc, ei_detail = d,
                                      ei_request_index = i \<rparr>]) h')))"

record batch_result =
  batch_id :: string
  total_requests :: nat
  successful_predictions :: nat
  failed_predictions :: nat
  responses :: "processed_response list"

definition batch_failed :: py_exception where
  "batch_failed = Exc (HTTPException 500) ''Batch prediction failed''"

text \<open>
  \<open>batch_predict\<close>, from the gathered outcomes. Everything after the \<open>gather\<close> runs
  inside \<open>try ... except Exception\<close>, which answers any exception with
  \<open>HTTPException(500, "Batch prediction failed")\<close>.
\<close>

definition batch_predict ::
  "clock \<Rightarrow> ErrorHandler \<Rightarrow> RequestContext \<Rightarrow> (py_exception + LegacyPredictionResponse) list
     \<Rightarrow> (py_exception + batch_result) \<times> ErrorHandler"
where
  "batch_predict clk h ctx gathered =
     (case process_responses clk ctx 0 gathered [] h of
        (Inl e, h') \<Rightarrow> (Inl batch_failed, h')
      | (Inr processed, h') \<Rightarrow>
          (case select_responses Not processed of
             Inl e \<Rightarrow> (Inl batch_failed, h')
           | Inr succeeded \<Rightarrow>
               (case select_responses id processed of
                  Inl e \<Rightarrow> (Inl batch_failed, h')
                | Inr failed \<Rightarrow>
                    (Inr \<lparr> batch_id = rc_request_id ctx,
                           total_requests = length gathered,
                           successful_predictions = length succeeded,
                           failed_predictions = length failed,
                           responses = processed \<rparr>, h'))))"

section \<open>Retry policy (error_handler.py)\<close>

text \<open>
  \<open>max_attempts\<close> counts attempts and attempt numbers come from \<open>range(max_attempts)\<close>,
  so both are natural numbers. Delays are Python floats. They are modelled by real
  numbers: rounding is not modelled, overflow of the power is (see \<open>float_pow\<close>).
\<close>

record RetryPolicy =
  max_attempts :: nat
  base_delay :: real
  max_delay :: real
  exponential_base :: real
  jitter :: bool

definition new_RetryPolicy :: RetryPolicy where
  "new_RetryPolicy =
     \<lparr> max_attempts = 3, base_delay = 1, max_delay = 60, exponential_base = 2, jitter = True \<rparr>"

text \<open>
  \<open>isinstance\<close> against \<open>retryable_exceptions\<close>: \<open>httpx.TimeoutException\<close>,
  \<open>ConnectTimeout\<close>, \<open>ReadTimeout\<close>, \<open>httpx.NetworkError\<close> (with its subclass
  \<open>ConnectError\<close>), \<open>ConnectionError\<close>, \<open>asyncio.TimeoutError\<close>.
\<close>

definition is_retryable :: "exception_class \<Rightarrow> bool" where
  "is_retryable k = (is_timeout_error k \<or> is_network_error k)"

definition should_retry :: "RetryPolicy \<Rightarrow> py_exception \<Rightarrow> nat \<Rightarrow> bool" where
  "should_retry p e attempt =
     (if attempt \<ge> max_attempts p then False
      else if is_retryable (exc_class e) then True
      else (case exc_class e of
              HTTPStatusError status \<Rightarrow> status \<in> set [429, 502, 503, 504]
            | k \<Rightarrow> False))"

text \<open>
  \<open>x ** n\<close> for a float \<open>x\<close> and an attempt number \<open>n\<close>: Python raises \<open>OverflowError\<close>
  when the result is out of the range of a double, that is when its magnitude reaches
  \<open>2 ^ 1024\<close> (with the default base 2.0, from attempt 1024 on). A result too small
  for a double is no error.
\<close>

definition float_pow :: "real \<Rightarrow> nat \<Rightarrow> py_exception + real" where
  "float_pow x n =
     (if \<bar>x ^ n\<bar> \<ge> 2 ^ 1024 then Inl (Exc OverflowError ''(34, Numerical result out of range)'')
      else Inr (x ^ n))"

text \<open>
  \<open>RetryPolicy.get_delay\<close>; \<open>rnd\<close> is the value \<open>random.random()\<close> returns, a number
  in \<open>[0, 1)\<close>, read only when \<open>jitter\<close> is set. The power is computed first, so its
  \<open>OverflowError\<close> leaves \<open>get_delay\<close> before \<open>min\<close> can cap the delay.
\<close>

definition get_delay :: "RetryPolicy \<Rightarrow> real \<Rightarrow> nat \<Rightarrow> py_exception + real" where
  "get_delay p rnd attempt =
     (case float_pow (exponential_base p) attempt of
        Inl e \<Rightarrow> Inl e
      | Inr pw \<Rightarrow>
          (let delay = min (base_delay p * pw) (max_delay p)
           in Inr (if jitter p then delay * (0.5 + rnd * 0.5) else delay)))"

text \<open>\<open>raise last_exception\<close>: raising \<open>None\<close> is a \<open>TypeError\<close>.\<close>

definition raise_last :: "py_exception option \<Rightarrow> py_exception" where
  "raise_last last_exception =
     (case last_exception of
        Some e \<Rightarrow> e
      | None \<Rightarrow> Exc TypeError ''exceptions must derive from BaseException'')"

text \<open>
  \<open>ErrorHandler.retry_with_backoff\<close>. The operation \<open>func\<close> works on a state of its own
  (what it calls, counts or mutates), threaded through the attempts. The loop returns
  the outcome, that state, and the delays it slept, in order; \<open>rnd attempt\<close> is the
  random number drawn for the delay after that attempt. \<open>get_delay\<close> is called inside
  the \<open>except\<close> branch, so an exception it raises leaves \<open>retry_with_backoff\<close>.
\<close>

fun retry_loop ::
  "RetryPolicy \<Rightarrow> (nat \<Rightarrow> real) \<Rightarrow> ('s \<Rightarrow> (py_exception + 'a) \<times> 's) \<Rightarrow> nat list
     \<Rightarrow> py_exception option \<Rightarrow> real list \<Rightarrow> 's \<Rightarrow> (py_exception + 'a) \<times> 's \<times> real list"
where
  "retry_loop p rnd func [] last_exception slept s = (Inl (raise_last last_exception), s, slept)"
| "retry_loop p rnd func (attempt # rest) last_exception slept s =
     (case func s of
        (Inr v, s') \<Rightarrow> (Inr v, s', slept)
      | (Inl e, s') \<Rightarrow>
          if \<not> should_retry p e attempt then (Inl (raise_last (Some e)), s', slept)
          else if int attempt < int (max_attempts p) - 1
          then (case get_delay p (rnd attempt) attempt of
                  Inl err \<Rightarrow> (Inl err, s', slept)
                | Inr delay \<Rightarrow> retry_loop p rnd func rest (Some e) (slept @ [delay]) s')
          else retry_loop p rnd func rest (Some e) slept s')"

definition retry_with_backoff ::
  "RetryPolicy \<Rightarrow> (nat \<Rightarrow> real) \<Rightarrow> ('s \<Rightarrow> (py_exception + 'a) \<times> 's) \<Rightarrow> 's
     \<Rightarrow> (py_exception + 'a) \<times> 's \<times> real list"
where
  "retry_with_backoff p rnd func s = retry_loop p rnd func [0..<max_attempts p] None [] s"

section \<open>The circuit breaker\<close>

text \<open>
  Modelled from the spec: the \<open>circuit\<close> decorator and its \<open>CircuitBreakerError\<close> come
  from the package \<open>circuitbreaker\<close>, which api_gateway.py and error_handler.py import
  and whose code is not among the sources. The sources only say where a breaker stands
  (around \<open>call_azure_ml_api\<close>, and around \<open>protected_call\<close> for each endpoint of
  \<open>CircuitBreakerManager\<close>) and with which parameters. The state, its phases and its
  steps below follow sections 3 and 4.2 of the specification. Times are in seconds.
\<close>

datatype phase = Closed | Open | HalfOpen

text \<open>
  Modelled from the spec: \<open>CircuitState\<close>, "phase, failure_count, opened_at,
  recovery_deadline" (section 3); the decorator's own state is not among the sources.
\<close>

record CircuitState =
  phase :: phase
  failure_count :: nat
  opened_at :: real
  recovery_deadline :: real

text \<open>
  The parameters are in the sources: \<open>@circuit(failure_threshold=5, recovery_timeout=30,
  expected_exception=Exception)\<close> on \<open>call_azure_ml_api\<close>, and the same defaults in
  \<open>CircuitBreakerManager.get_circuit_breaker\<close>. Every \<open>Exception\<close> counts as a failure.
\<close>

record CircuitConfig =
  failure_threshold :: nat
  recovery_timeout :: real

text \<open>Modelled from the spec: the decorator's initial state; a breaker "starts Closed".\<close>

definition new_CircuitState :: CircuitState where
  "new_CircuitState = \<lparr> phase = Closed, failure_count = 0, opened_at = 0, recovery_deadline = 0 \<rparr>"

text \<open>
  Modelled from the spec: the decorator's admission test at the start of a call. "While
  Open, every call fails immediately with CircuitOpen and performs no network attempt,
  until now \<open>\<ge>\<close> opened_at + recovery_timeout; the next call after that deadline is
  admitted as a single HalfOpen trial: only the first caller past the deadline may
  attempt it, all others still observe Open."
\<close>

definition admit :: "CircuitConfig \<Rightarrow> real \<Rightarrow> CircuitState \<Rightarrow> bool \<times> CircuitState" where
  "admit cfg now cs =
     (case phase cs of
        Closed \<Rightarrow> (True, cs)
      | Open \<Rightarrow>
          if now \<ge> opened_at cs + recovery_timeout cfg then (True, cs\<lparr> phase := HalfOpen \<rparr>)
          else (False, cs)
      | HalfOpen \<Rightarrow> (False, cs))"

text \<open>
  Modelled from the spec: what the decorator does when the call it admitted raises.
  "Each failed attempt increments failure_count; on reaching failure_threshold the
  breaker transitions to Open, recording opened_at"; a failed HalfOpen trial "returns to
  Open with opened_at refreshed". A failure that arrives while the breaker is Open (a
  call admitted earlier and still running when the breaker opened) is counted and
  changes nothing else; the specification does not speak of it.
\<close>

definition record_failure :: "CircuitConfig \<Rightarrow> real \<Rightarrow> CircuitState \<Rightarrow> CircuitState" where
  "record_failure cfg now cs =
     (case phase cs of
        Closed \<Rightarrow>
          if failure_count cs + 1 \<ge> failure_threshold cfg
          then cs\<lparr> phase := Open, failure_count := failure_count cs + 1, opened_at := now,
                   recovery_deadline := now + recovery_timeout cfg \<rparr>
          else cs\<lparr> failure_count := failure_count cs + 1 \<rparr>
      | HalfOpen \<Rightarrow>
          cs\<lparr> phase := Open, failure_count := failure_count cs + 1, opened_at := now,
               recovery_deadline := now + recovery_timeout cfg \<rparr>
      | Open \<Rightarrow> cs\<lparr> failure_count := failure_count cs + 1 \<rparr>)"

text \<open>
  Modelled from the spec: what the decorator does when the call it admitted returns. "A
  successful HalfOpen trial resets the breaker to Closed (failure_count = 0)"; a success
  "must NOT increment" the count.
\<close>

definition record_success :: "CircuitState \<Rightarrow> CircuitState" where
  "record_success cs =
     (case phase cs of
        HalfOpen \<Rightarrow> cs\<lparr> phase := Closed, failure_count := 0 \<rparr>
      | Closed \<Rightarrow> cs
      | Open \<Rightarrow> cs)"

definition circuit_open :: py_exception where
  "circuit_open = Exc CircuitBreakerError ''Circuit breaker is open''"

text \<open>
  Modelled from the spec: a function under the decorator, called at time \<open>now\<close>. The
  breaker admits or refuses the call; an admitted call runs \<open>func\<close> once on the state
  \<open>func\<close> works on, and its outcome is recorded. A refused call does not run \<open>func\<close>.
\<close>

definition protected_call ::
  "CircuitConfig \<Rightarrow> real \<Rightarrow> ('s \<Rightarrow> (py_exception + 'a) \<times> 's) \<Rightarrow> CircuitState \<times> 's
     \<Rightarrow> (py_exception + 'a) \<times> CircuitState \<times> 's"
where
  "protected_call cfg now func st =
     (case admit cfg now (fst st) of
        (False, cs1) \<Rightarrow> (Inl circuit_open, cs1, snd st)
      | (True, cs1) \<Rightarrow>
          (case func (snd st) of
             (Inr v, s') \<Rightarrow> (Inr v, record_success cs1, s')
           | (Inl e, s') \<Rightarrow> (Inl e, record_failure cfg now cs1, s')))"

text \<open>
  The upstream service, as the dispatch sees it: \<open>outcome_at u n\<close> is what network
  attempt number \<open>n\<close> (counted from 0) ends with, and \<open>attempts_made u\<close> counts the
  attempts made so far.
\<close>

record 'r upstream =
  outcome_at :: "nat \<Rightarrow> py_exception + 'r"
  attempts_made :: nat

text \<open>
  The body of \<open>call_azure_ml_api\<close>: one \<open>client.post\<close>, \<open>raise_for_status\<close>, and the
  decoded answer.
\<close>

definition http_post :: "'r upstream \<Rightarrow> (py_exception + 'r) \<times> 'r upstream" where
  "http_post u = (outcome_at u (attempts_made u), u\<lparr> attempts_made := attempts_made u + 1 \<rparr>)"

definition gateway_circuit :: CircuitConfig where
  "gateway_circuit = \<lparr> failure_threshold = 5, recovery_timeout = 30 \<rparr>"

text \<open>
  \<open>call_azure_ml_api\<close> (api_gateway.py): the body above under
  \<open>@circuit(failure_threshold=5, recovery_timeout=30, expected_exception=Exception)\<close>.
  This is the call \<open>predict\<close> and \<open>batch_predict\<close> dispatch with, once per request;
  neither wraps it in \<open>retry_with_backoff\<close>.
\<close>

definition call_azure_ml_api ::
  "real \<Rightarrow> CircuitState \<times> 'r upstream \<Rightarrow> (py_exception + 'r) \<times> CircuitState \<times> 'r upstream"
where
  "call_azure_ml_api now st = protected_call gateway_circuit now http_post st"

text \<open>
  \<open>CircuitBreakerManager\<close> (error_handler.py): one breaker per endpoint, created on the
  first request for the endpoint with the parameters of that request and kept for later
  ones.
\<close>

type_synonym CircuitBreakerManager = "string \<Rightarrow> (CircuitConfig \<times> CircuitState) option"

definition get_circuit_breaker ::
  "CircuitBreakerManager \<Rightarrow> string \<Rightarrow> CircuitConfig
     \<Rightarrow> (CircuitConfig \<times> CircuitState) \<times> CircuitBreakerManager"
where
  "get_circuit_breaker m endpoint cfg =
     (case m endpoint of
        None \<Rightarrow> ((cfg, new_CircuitState), m(endpoint \<mapsto> (cfg, new_CircuitState)))
      | Some b \<Rightarrow> (b, m))"

text \<open>
  A call through the breaker of \<open>endpoint\<close>: \<open>get_circuit_breaker(endpoint)\<close> followed by
  \<open>protected_call(func)\<close>, whose breaker keeps the state it ends with.
\<close>

definition call_endpoint ::
  "CircuitBreakerManager \<Rightarrow> string \<Rightarrow> CircuitConfig \<Rightarrow> real \<Rightarrow> ('s \<Rightarrow> (py_exception + 'a) \<times> 's)
     \<Rightarrow> 's \<Rightarrow> (py_exception + 'a) \<times> CircuitBreakerManager \<times> 's"
where
  "call_endpoint m endpoint cfg now func s =
     (case get_circuit_breaker m endpoint cfg of
        ((c, cs), m1) \<Rightarrow>
          (case protected_call c now func (cs, s) of
             (r, cs', s') \<Rightarrow> (r, m1(endpoint \<mapsto> (c, cs')), s')))"

section \<open>Retry under the circuit breaker\<close>

text \<open>
  \<open>retry_with_backoff\<close> as an operation on the state of \<open>func\<close> alone: the outcome and
  the state, without the list of delays.
\<close>

definition retry_op ::
  "RetryPolicy \<Rightarrow> (nat \<Rightarrow> real) \<Rightarrow> ('s \<Rightarrow> (py_exception + 'a) \<times> 's) \<Rightarrow> 's
     \<Rightarrow> (py_exception + 'a) \<times> 's"
where
  "retry_op p rnd func s =
     (case retry_with_backoff p rnd func s of (r, s', slept) \<Rightarrow> (r, s'))"



section \<open>Token cache and authentication bridge (auth_bridge.py)\<close>

record UserInfo =
  user_id :: string
  username :: string
  roles :: "string list"
  permissions :: "string list"
  expires_at :: datetime

text \<open>
  An entry of \<open>TokenCache._cache\<close>: the dictionary \<open>token_data\<close>, which holds the cached
  data under \<open>"user_info"\<close> and, once \<open>set\<close> has stored it, its deadline under
  \<open>"expires_at"\<close>.
\<close>

record 'v token_data =
  td_user_info :: 'v
  td_expires_at :: datetime

type_synonym 'v TokenCache = "string \<Rightarrow> 'v token_data option"

text \<open>\<open>TokenCache.get\<close>, at the instant \<open>utcnow\<close>: the answer and the cache after it.\<close>

definition TokenCache_get ::
  "datetime \<Rightarrow> 'v TokenCache \<Rightarrow> string \<Rightarrow> 'v token_data option \<times> 'v TokenCache"
where
  "TokenCache_get utcnow cache k =
     (case cache k of
        Some token_data \<Rightarrow>
          if utcnow < td_expires_at token_data then (Some token_data, cache)
          else (None, cache(k := None))
      | None \<Rightarrow> (None, cache))"

text \<open>\<open>TokenCache.set\<close>\<close>

definition TokenCache_set ::
  "datetime \<Rightarrow> 'v TokenCache \<Rightarrow> string \<Rightarrow> 'v \<Rightarrow> int \<Rightarrow> 'v TokenCache"
where
  "TokenCache_set utcnow cache k v ttl_seconds =
     cache(k \<mapsto> \<lparr> td_user_info = v, td_expires_at = utcnow + timedelta_seconds ttl_seconds \<rparr>)"

text \<open>\<open>AuthenticationBridge._is_jwt_token\<close> and \<open>_detect_auth_method\<close>\<close>

definition is_jwt_token :: "string \<Rightarrow> bool" where
  "is_jwt_token token = (length (str_split token CHR ''.'') = 3)"

definition detect_auth_method :: "string \<Rightarrow> string" where
  "detect_auth_method auth_token =
     (if startswith auth_token ''Bearer '' then
        (if is_jwt_token (drop 7 auth_token) then ''bearer_jwt'' else ''api_key'')
      else if startswith auth_token ''Basic '' then ''basic_auth''
      else if startswith auth_token ''Legacy '' then ''legacy_token''
      else ''api_key'')"

text \<open>
  The four scheme validators decode, decrypt and look up with the JWT library, the
  secret store, Fernet, the configuration and the clock; each catches its own
  exceptions and answers \<open>None\<close>. They enter as functions from the credential to the
  answer they give at the time of the call.
\<close>

record validators =
  validate_jwt_token :: "string \<Rightarrow> UserInfo option"
  validate_api_key :: "string \<Rightarrow> UserInfo option"
  validate_basic_auth :: "string \<Rightarrow> UserInfo option"
  validate_legacy_token :: "string \<Rightarrow> UserInfo option"

text \<open>
  \<open>_generate_cache_key\<close>: the first 32 characters of the SHA-256 hex digest; the digest
  function is a parameter.
\<close>

definition generate_cache_key :: "(string \<Rightarrow> string) \<Rightarrow> string \<Rightarrow> string" where
  "generate_cache_key sha256_hexdigest auth_token = take 32 (sha256_hexdigest auth_token)"

text \<open>The scheme-specific step of \<open>validate_credentials\<close>, after a cache miss.\<close>

definition validate_by_method :: "validators \<Rightarrow> string \<Rightarrow> string \<Rightarrow> UserInfo option" where
  "validate_by_method vs auth_method auth_token =
     (if auth_method = ''bearer_jwt'' then validate_jwt_token vs auth_token
      else if auth_method = ''api_key'' then validate_api_key vs auth_token
      else if auth_method = ''basic_auth'' then validate_basic_auth vs auth_token
      else if auth_method = ''legacy_token'' then validate_legacy_token vs auth_token
      else None)"

text \<open>
  \<open>AuthenticationBridge.validate_credentials\<close>. The cache is read at \<open>t_get\<close> and, after
  a successful validation, written at \<open>t_set\<close>; \<open>ttl\<close> is \<open>config.token_cache_ttl\<close>.
\<close>

definition validate_credentials ::
  "(string \<Rightarrow> string) \<Rightarrow> validators \<Rightarrow> int \<Rightarrow> datetime \<Rightarrow> datetime \<Rightarrow> UserInfo TokenCache \<Rightarrow> string
     \<Rightarrow> UserInfo option \<times> UserInfo TokenCache"
where
  "validate_credentials sha256_hexdigest vs ttl t_get t_set cache auth_token =
     (let cache_key = generate_cache_key sha256_hexdigest auth_token
      in case TokenCache_get t_get cache cache_key of
           (Some cached_user, cache1) \<Rightarrow> (Some (td_user_info cached_user), cache1)
         | (None, cache1) \<Rightarrow>
             (case validate_by_method vs (detect_auth_method auth_token) auth_token of
                Some user_info \<Rightarrow>
                  (Some user_info, TokenCache_set t_set cache1 cache_key user_info ttl)
              | None \<Rightarrow> (None, cache1)))"

section \<open>Example data\<close>

text \<open>Concrete principals, validators and contexts on which the properties are run.\<close>

definition example_user :: UserInfo where
  "example_user =
     \<lparr> user_id = ''u1'', username = ''u1'', roles = [''user''], permissions = [''predict''],
       expires_at = 86400000000 \<rparr>"

definition stale_user :: UserInfo where
  "stale_user =
     \<lparr> user_id = ''u0'', username = ''old'', roles = [], permissions = [], expires_at = 5 \<rparr>"

definition accept_api_key :: validators where
  "accept_api_key =
     \<lparr> validate_jwt_token = (\<lambda>t. None),
       validate_api_key = (\<lambda>t. if t = ''Bearer k1'' then Some example_user else None),
       validate_basic_auth = (\<lambda>t. None),
       validate_legacy_token = (\<lambda>t. None) \<rparr>"

definition reject_all :: validators where
  "reject_all =
     \<lparr> validate_jwt_token = (\<lambda>t. None), validate_api_key = (\<lambda>t. None),
       validate_basic_auth = (\<lambda>t. None), validate_legacy_token = (\<lambda>t. None) \<rparr>"

section \<open>Reading the metrics\<close>

text \<open>
  \<open>errors_by_category.get(c, 0)\<close> and \<open>sum(errors_by_category.values())\<close>, and the same
  for the severities: a category or severity that was never counted has no entry and
  adds nothing to the sum.
\<close>

definition all_categories :: "ErrorCategory list" where
  "all_categories =
     [AUTHENTICATION, AUTHORIZATION, VALIDATION, TIMEOUT, RATE_LIMIT, AZURE_ML_ERROR,
      NETWORK_ERROR, INTERNAL_ERROR, CIRCUIT_BREAKER, UNKNOWN]"

definition all_severities :: "ErrorSeverity list" where
  "all_severities = [LOW, MEDIUM, HIGH, CRITICAL]"

definition category_count :: "ErrorMetrics \<Rightarrow> ErrorCategory \<Rightarrow> int" where
  "category_count m c = dict_get (errors_by_category m) c 0"

definition severity_count :: "ErrorMetrics \<Rightarrow> ErrorSeverity \<Rightarrow> int" where
  "severity_count m v = dict_get (errors_by_severity m) v 0"

definition sum_by_category :: "ErrorMetrics \<Rightarrow> int" where
  "sum_by_category m = sum_list (map (category_count m) all_categories)"

definition sum_by_severity :: "ErrorMetrics \<Rightarrow> int" where
  "sum_by_severity m = sum_list (map (severity_count m) all_severities)"

definition metrics_consistent :: "ErrorMetrics \<Rightarrow> bool" where
  "metrics_consistent m =
     (total_errors m = sum_by_category m \<and> total_errors m = sum_by_severity m \<and>
      0 \<le> total_errors m \<and> (\<forall>c. 0 \<le> category_count m c) \<and> (\<forall>v. 0 \<le> severity_count m v))"

text \<open>A run of error-handling calls on one handler, each with its clock reading.\<close>

fun handle_all ::
  "ErrorHandler \<Rightarrow> (clock \<times> py_exception \<times> handler_context) list \<Rightarrow> ErrorHandler"
where
  "handle_all h [] = h"
| "handle_all h ((clk, e, c) # rest) = handle_all (snd (handle_prediction_error clk h e c)) rest"

text \<open>A clock reading, the two kinds of context and a prediction for the examples.\<close>

definition example_clock :: clock where
  "example_clock = \<lparr> time_ms_text = ''1700000000000'', utcnow_iso = ''2023-11-14T22:13:20'' \<rparr>"

definition example_request_context :: RequestContext where
  "example_request_context =
     \<lparr> rc_request_id = ''req_1700000000000'', rc_correlation_id = None, rc_start_time = 0,
       rc_legacy_format = False, rc_auth_token = Some ''Bearer k1'' \<rparr>"

definition example_error_context :: ErrorContext where
  "example_error_context =
     \<lparr> ec_request_id = ''test_123'', ec_correlation_id = Some ''corr_456'',
       ec_user_id = Some ''test_user'', ec_endpoint = ''/predict'', ec_method = ''POST'',
       ec_timestamp = 0, ec_processing_time = 1.5, ec_retry_count = 0 \<rparr>"

definition example_prediction :: LegacyPredictionResponse where
  "example_prediction =
     \<lparr> lp_prediction = Some 0.85, lp_confidence = Some 0.92, lp_model_version = Some ''v1.2.3'',
       lp_request_id = ''req_1700000000000_batch'', lp_timestamp = ''2023-11-14T22:13:20'',
       lp_status = ''success'' \<rparr>"

section \<open>Runs of dispatches\<close>

text \<open>
  Dispatches made one after the other at the times \<open>ts\<close>, each one call of a function
  under the breaker whose body is one network attempt, as \<open>call_azure_ml_api\<close> is.
\<close>

fun dispatch_all ::
  "CircuitConfig \<Rightarrow> real list \<Rightarrow> CircuitState \<times> 'r upstream \<Rightarrow> CircuitState \<times> 'r upstream"
where
  "dispatch_all cfg [] st = st"
| "dispatch_all cfg (now # later) st =
     dispatch_all cfg later (snd (protected_call cfg now http_post st))"

text \<open>
  The phase changes the specification allows (section 3): from Closed to Open, from Open
  to HalfOpen, and from HalfOpen to Closed or to Open; a step may also leave the phase as
  it is.
\<close>

definition allowed_transition :: "phase \<Rightarrow> phase \<Rightarrow> bool" where
  "allowed_transition p q =
     (p = q \<or> (p = Closed \<and> q = Open) \<or> (p = Open \<and> q = HalfOpen) \<or>
      (p = HalfOpen \<and> (q = Closed \<or> q = Open)))"

text \<open>
  Example upstreams: one whose first five attempts fail to connect and whose later
  attempts answer, and one whose first attempt times out and whose later attempts answer.
\<close>

definition recovering_upstream :: "string upstream" where
  "recovering_upstream =
     \<lparr> outcome_at = (\<lambda>n. if n < 5 then Inl (Exc HttpxConnectError ''Connection failed'')
                           else Inr ''0.85''),
       attempts_made = 0 \<rparr>"


section \<open>Properties of the classifier and the response mapping\<close>

lemma classify_status_429: "classify_error (Exc (HTTPStatusError 429) msg) = (RATE_LIMIT, LOW)"
  by (simp add: classify_error_def classify_http_status_def)

lemma classify_status_503: "classify_error (Exc (HTTPStatusError 503) msg) = (AZURE_ML_ERROR, HIGH)"
  by (simp add: classify_error_def classify_http_status_def)

text \<open>
  C8. An upstream status 429 is classified (RateLimit, Low) and its response has status
  code 429 and \<open>retry_after = 60\<close>; an upstream status 503 is classified (UpstreamError,
  High), the category \<open>AZURE_ML_ERROR\<close> of the source, and its response has status code
  502 and carries the text of the error as its detail. This holds for every error text,
  clock reading and context.
\<close>

theorem upstream_429_503_mapping:
  "classify_error (Exc (HTTPStatusError 429) msg) = (RATE_LIMIT, LOW) \<and>
   status_code (create_error_response clk (Exc (HTTPStatusError 429) msg)
      (fst (classify_error (Exc (HTTPStatusError 429) msg)))
      (snd (classify_error (Exc (HTTPStatusError 429) msg))) c) = 429 \<and>
   retry_after (create_error_response clk (Exc (HTTPStatusError 429) msg)
      (fst (classify_error (Exc (HTTPStatusError 429) msg)))
      (snd (classify_error (Exc (HTTPStatusError 429) msg))) c) = Some 60 \<and>
   classify_error (Exc (HTTPStatusError 503) msg) = (AZURE_ML_ERROR, HIGH) \<and>
   status_code (create_error_response clk (Exc (HTTPStatusError 503) msg)
      (fst (classify_error (Exc (HTTPStatusError 503) msg)))
      (snd (classify_error (Exc (HTTPStatusError 503) msg))) c) = 502 \<and>
   detail (create_error_response clk (Exc (HTTPStatusError 503) msg)
      (fst (classify_error (Exc (HTTPStatusError 503) msg)))
      (snd (classify_error (Exc (HTTPStatusError 503) msg))) c) = Some msg"
  by (simp add: classify_status_429 classify_status_503 create_error_response_def dict_get_def)

section \<open>Properties of scheme detection\<close>

lemma startswith_iff: "startswith s p \<longleftrightarrow> (\<exists>v. s = p @ v)"
proof
  assume "startswith s p"
  then have "s = p @ drop (length p) s"
    by (metis append_take_drop_id startswith_def)
  then show "\<exists>v. s = p @ v" ..
next
  assume "\<exists>v. s = p @ v"
  then show "startswith s p" by (auto simp: startswith_def)
qed

lemma length_split_acc: "length (split_acc sep cur s) = Suc (count_list s sep)"
  by (induction s arbitrary: cur) auto

lemma length_str_split: "length (str_split s sep) = Suc (count_list s sep)"
  by (simp add: str_split_def length_split_acc)

lemma detect_bearer:
  "detect_auth_method (''Bearer '' @ v) =
     (if length (str_split v CHR ''.'') = 3 then ''bearer_jwt'' else ''api_key'')"
  by (simp add: detect_auth_method_def startswith_def is_jwt_token_def)

lemma detect_basic: "detect_auth_method (''Basic '' @ v) = ''basic_auth''"
  by (simp add: detect_auth_method_def startswith_def)

lemma detect_legacy: "detect_auth_method (''Legacy '' @ v) = ''legacy_token''"
  by (simp add: detect_auth_method_def startswith_def)

lemma detect_other:
  assumes "\<forall>v. s \<noteq> ''Bearer '' @ v" "\<forall>v. s \<noteq> ''Basic '' @ v" "\<forall>v. s \<noteq> ''Legacy '' @ v"
  shows "detect_auth_method s = ''api_key''"
  using assms unfolding detect_auth_method_def startswith_iff by auto

lemma detect_k1: "detect_auth_method ''Bearer k1'' = ''api_key''"
  by (simp add: detect_auth_method_def startswith_def is_jwt_token_def str_split_def)

text \<open>
  C5. Scheme detection. A credential \<open>"Bearer <v>"\<close> is a JWT (\<open>bearer_jwt\<close>) when \<open>v\<close>
  splits at its dots into exactly three segments, which is when \<open>v\<close> has exactly two
  dots, and an API key otherwise; \<open>"Basic <v>"\<close> is Basic; \<open>"Legacy <v>"\<close> is a legacy
  token; a string that starts with none of the three prefixes is an API key.
\<close>

theorem detect_auth_method_scheme:
  "detect_auth_method (''Bearer '' @ v) =
     (if length (str_split v CHR ''.'') = 3 then ''bearer_jwt'' else ''api_key'') \<and>
   length (str_split v CHR ''.'') = Suc (count_list v CHR ''.'') \<and>
   detect_auth_method (''Basic '' @ v) = ''basic_auth'' \<and>
   detect_auth_method (''Legacy '' @ v) = ''legacy_token'' \<and>
   ((\<forall>w. s \<noteq> ''Bearer '' @ w) \<and> (\<forall>w. s \<noteq> ''Basic '' @ w) \<and> (\<forall>w. s \<noteq> ''Legacy '' @ w)
      \<longrightarrow> detect_auth_method s = ''api_key'')"
  using detect_bearer detect_basic detect_legacy detect_other length_str_split by blast

theorem detect_auth_method_scheme_witness:
  "detect_auth_method ''Bearer aa.bb.cc'' = ''bearer_jwt'' \<and>
   detect_auth_method ''Bearer k1'' = ''api_key'' \<and>
   detect_auth_method ''Basic dTpw'' = ''basic_auth'' \<and>
   detect_auth_method ''Legacy u1:17'' = ''legacy_token'' \<and>
   (\<forall>w. ''test-api-key'' \<noteq> ''Bearer '' @ w) \<and>
   (\<forall>w. ''test-api-key'' \<noteq> ''Basic '' @ w) \<and>
   (\<forall>w. ''test-api-key'' \<noteq> ''Legacy '' @ w) \<and>
   detect_auth_method ''test-api-key'' = ''api_key''"
proof -
  have h: "(\<forall>w. ''test-api-key'' \<noteq> ''Bearer '' @ w) \<and>
           (\<forall>w. ''test-api-key'' \<noteq> ''Basic '' @ w) \<and>
           (\<forall>w. ''test-api-key'' \<noteq> ''Legacy '' @ w)"
    by simp
  have a: "detect_auth_method ''Bearer aa.bb.cc'' = ''bearer_jwt''"
    using detect_auth_method_scheme [of "''aa.bb.cc''" "''test-api-key''"]
    by (simp add: str_split_def)
  have b: "detect_auth_method ''Bearer k1'' = ''api_key''"
    using detect_auth_method_scheme [of "''k1''" "''test-api-key''"]
    by (simp add: str_split_def)
  have c: "detect_auth_method ''Basic dTpw'' = ''basic_auth''"
    using detect_auth_method_scheme [of "''dTpw''" "''test-api-key''"] by simp
  have d: "detect_auth_method ''Legacy u1:17'' = ''legacy_token''"
    using detect_auth_method_scheme [of "''u1:17''" "''test-api-key''"] by simp
  have e: "detect_auth_method ''test-api-key'' = ''api_key''"
    using detect_auth_method_scheme [of "''k1''" "''test-api-key''"] h by blast
  show ?thesis using h a b c d e by blast
qed

section \<open>Properties of the token cache and of validation\<close>

lemma get_Some_iff:
  "fst (TokenCache_get now cache k) = Some td \<longleftrightarrow> cache k = Some td \<and> now < td_expires_at td"
  by (auto simp: TokenCache_get_def split: option.splits)

lemma get_expired:
  "cache k = Some td \<Longrightarrow> td_expires_at td \<le> now \<Longrightarrow>
     TokenCache_get now cache k = (None, cache(k := None))"
  by (simp add: TokenCache_get_def)

lemma get_other_keys: "k' \<noteq> k \<Longrightarrow> snd (TokenCache_get now cache k) k' = cache k'"
  by (simp add: TokenCache_get_def split: option.splits)

lemma validate_after_expiry:
  assumes "cache (generate_cache_key H tok) = Some td" "td_expires_at td \<le> t_get"
  shows "fst (validate_credentials H vs ttl t_get t_set cache tok) =
           validate_by_method vs (detect_auth_method tok) tok"
  using assms
  by (simp add: validate_credentials_def get_expired Let_def split: option.splits)

lemma validate_hit:
  assumes "cache (generate_cache_key H tok) = Some td" "t < td_expires_at td"
  shows "validate_credentials H vs ttl t t' cache tok = (Some (td_user_info td), cache)"
  using assms by (simp add: validate_credentials_def TokenCache_get_def Let_def)

text \<open>
  C7. The token cache never returns an entry whose deadline has passed. At every read
  time and for every key, \<open>TokenCache.get\<close> answers with an entry exactly when the key
  holds that entry and its \<open>expires_at\<close> is still in the future; an entry read at or
  after its deadline is answered with \<open>None\<close> and removed by that read, and no other key
  is touched. Consequently a credential whose entry has expired is validated afresh:
  the answer of \<open>validate_credentials\<close> is the one the validator of the detected scheme
  gives, whatever the expired entry held.
\<close>

theorem TokenCache_get_never_stale:
  "(fst (TokenCache_get now cache k) = Some td \<longleftrightarrow> cache k = Some td \<and> now < td_expires_at td) \<and>
   (cache k = Some td \<and> td_expires_at td \<le> now \<longrightarrow>
      fst (TokenCache_get now cache k) = None \<and> snd (TokenCache_get now cache k) k = None) \<and>
   (k' \<noteq> k \<longrightarrow> snd (TokenCache_get now cache k) k' = cache k') \<and>
   (ucache (generate_cache_key H tok) = Some utd \<and> td_expires_at utd \<le> now \<longrightarrow>
      fst (validate_credentials H vs ttl now t_set ucache tok) =
        validate_by_method vs (detect_auth_method tok) tok)"
  using get_Some_iff [of now cache k td] get_expired [of cache k td now]
    get_other_keys [of k' k now cache] validate_after_expiry [of ucache H tok utd now vs ttl t_set]
  by simp

theorem TokenCache_get_never_stale_witness:
  "fst (TokenCache_get 50 [''k'' \<mapsto> \<lparr> td_user_info = example_user, td_expires_at = 100 \<rparr>] ''k'') =
     Some \<lparr> td_user_info = example_user, td_expires_at = 100 \<rparr> \<and>
   fst (TokenCache_get 100 [''k'' \<mapsto> \<lparr> td_user_info = example_user, td_expires_at = 100 \<rparr>] ''k'') =
     None \<and>
   snd (TokenCache_get 100 [''k'' \<mapsto> \<lparr> td_user_info = example_user, td_expires_at = 100 \<rparr>] ''k'')
     ''k'' = None \<and>
   fst (validate_credentials (\<lambda>t. t) accept_api_key 3600 100 101
          [''Bearer k1'' \<mapsto> \<lparr> td_user_info = stale_user, td_expires_at = 100 \<rparr>] ''Bearer k1'') =
     Some example_user"
proof -
  let ?td = "\<lparr> td_user_info = example_user, td_expires_at = 100 \<rparr>"
  let ?old = "\<lparr> td_user_info = stale_user, td_expires_at = 100 \<rparr>"
  have a: "fst (TokenCache_get 50 [''k'' \<mapsto> ?td] ''k'') = Some ?td"
    using TokenCache_get_never_stale [where now = 50 and cache = "[''k'' \<mapsto> ?td]"
        and k = "''k''" and td = ?td]
    by simp
  have b: "fst (TokenCache_get 100 [''k'' \<mapsto> ?td] ''k'') = None \<and>
           snd (TokenCache_get 100 [''k'' \<mapsto> ?td] ''k'') ''k'' = None"
    using TokenCache_get_never_stale [where now = 100 and cache = "[''k'' \<mapsto> ?td]"
        and k = "''k''" and td = ?td]
    by simp
  have c: "fst (validate_credentials (\<lambda>t. t) accept_api_key 3600 100 101
              [''Bearer k1'' \<mapsto> ?old] ''Bearer k1'') = Some example_user"
    using TokenCache_get_never_stale [where now = 100 and ucache = "[''Bearer k1'' \<mapsto> ?old]"
        and cache = "[''k'' \<mapsto> ?td]" and k = "''k''" and td = ?td and k' = "''k''"
        and H = "\<lambda>t. t" and tok = "''Bearer k1''" and utd = ?old and vs = accept_api_key
        and ttl = 3600 and t_set = 101]
    by (simp add: generate_cache_key_def detect_k1 validate_by_method_def accept_api_key_def)
  show ?thesis using a b c by simp
qed

text \<open>
  C6. When \<open>validate_credentials\<close> answers with a principal, the cache afterwards holds
  that principal under the credential's key (after a miss, with the deadline \<open>ttl\<close>
  seconds past the write), and every later call with the same credential before that
  deadline answers with the same principal and leaves the cache as it is. The later
  call may be given any validators and any \<open>ttl\<close>: its answer does not depend on scheme
  detection or on a validator, it is read from the cache.
\<close>

theorem validate_credentials_cached:
  assumes "validate_credentials H vs ttl t1 t1' cache tok = (Some p, cache1)"
  shows "\<exists>td. cache1 (generate_cache_key H tok) = Some td \<and> td_user_info td = p \<and>
           (fst (TokenCache_get t1 cache (generate_cache_key H tok)) = None \<longrightarrow>
              td_expires_at td = t1' + timedelta_seconds ttl) \<and>
           (\<forall>t2 t2' vs' ttl'. t2 < td_expires_at td \<longrightarrow>
              validate_credentials H vs' ttl' t2 t2' cache1 tok = (Some p, cache1))"
proof (cases "fst (TokenCache_get t1 cache (generate_cache_key H tok))")
  case None
  then have g: "TokenCache_get t1 cache (generate_cache_key H tok) =
      (None, snd (TokenCache_get t1 cache (generate_cache_key H tok)))"
    by (metis prod.collapse)
  let ?c = "snd (TokenCache_get t1 cache (generate_cache_key H tok))"
  from assms g have v: "validate_by_method vs (detect_auth_method tok) tok = Some p"
    and c1: "cache1 = TokenCache_set t1' ?c (generate_cache_key H tok) p ttl"
    by (auto simp: validate_credentials_def Let_def split: option.splits prod.splits)
  let ?td = "\<lparr> td_user_info = p, td_expires_at = t1' + timedelta_seconds ttl \<rparr>"
  have e: "cache1 (generate_cache_key H tok) = Some ?td"
    by (simp add: c1 TokenCache_set_def)
  show ?thesis
    using e validate_hit [of cache1 H tok ?td] by (intro exI [of _ ?td]) simp
next
  case (Some td)
  then have k: "cache (generate_cache_key H tok) = Some td" and f: "t1 < td_expires_at td"
    by (simp_all add: get_Some_iff)
  from validate_hit [of cache H tok td t1 vs ttl t1'] k f assms
  have p: "td_user_info td = p" and c1: "cache1 = cache"
    by simp_all
  show ?thesis
    using k p c1 Some validate_hit [of cache H tok td] by (intro exI [of _ td]) simp
qed

theorem validate_credentials_cached_witness:
  "validate_credentials (\<lambda>t. t) accept_api_key 3600 0 1 Map.empty ''Bearer k1'' =
     (Some example_user,
      [''Bearer k1'' \<mapsto> \<lparr> td_user_info = example_user, td_expires_at = 3600000001 \<rparr>]) \<and>
   validate_credentials (\<lambda>t. t) reject_all 3600 3600000000 3600000002
       [''Bearer k1'' \<mapsto> \<lparr> td_user_info = example_user, td_expires_at = 3600000001 \<rparr>]
       ''Bearer k1'' =
     (Some example_user,
      [''Bearer k1'' \<mapsto> \<lparr> td_user_info = example_user, td_expires_at = 3600000001 \<rparr>])"
proof -
  let ?c1 = "[''Bearer k1'' \<mapsto> \<lparr> td_user_info = example_user, td_expires_at = 3600000001 \<rparr>]"
  have first: "validate_credentials (\<lambda>t. t) accept_api_key 3600 0 1 Map.empty ''Bearer k1'' =
      (Some example_user, ?c1)"
    by (simp add: validate_credentials_def TokenCache_get_def TokenCache_set_def
        generate_cache_key_def detect_k1 validate_by_method_def accept_api_key_def
        timedelta_seconds_def)
  have miss: "fst (TokenCache_get 0 Map.empty (generate_cache_key (\<lambda>t. t) ''Bearer k1'')) = None"
    by (simp add: TokenCache_get_def)
  from validate_credentials_cached [OF first] miss
  obtain td where td: "?c1 (generate_cache_key (\<lambda>t. t) ''Bearer k1'') = Some td"
    and ex: "td_expires_at td = 1 + timedelta_seconds 3600"
    and again: "\<forall>t2 t2' vs' ttl'. t2 < td_expires_at td \<longrightarrow>
          validate_credentials (\<lambda>t. t) vs' ttl' t2 t2' ?c1 ''Bearer k1'' =
            (Some example_user, ?c1)"
    by blast
  have "(3600000000::int) < td_expires_at td"
    by (simp add: ex timedelta_seconds_def)
  with again
  have "validate_credentials (\<lambda>t. t) reject_all 3600 3600000000 3600000002 ?c1 ''Bearer k1'' =
      (Some example_user, ?c1)"
    by blast
  with first show ?thesis by simp
qed

section \<open>Properties of the error metrics\<close>

lemma dict_get_increment:
  "dict_get (increment d k) c 0 = (if c = k then dict_get d k 0 + 1 else dict_get d c 0)"
  by (simp add: increment_def dict_get_def Let_def)

lemma sum_list_unbumped:
  "k \<notin> set xs \<Longrightarrow> sum_list (map (\<lambda>c. if c = k then a else f c) xs) = sum_list (map f xs)"
  by (induction xs) auto

lemma sum_list_bump:
  "distinct xs \<Longrightarrow> k \<in> set xs \<Longrightarrow>
     sum_list (map (\<lambda>c. if c = k then f k + 1 else f c) xs) = sum_list (map f xs) + (1::int)"
proof (induction xs)
  case Nil
  then show ?case by simp
next
  case (Cons x xs)
  show ?case
  proof (cases "x = k")
    case True
    with Cons.prems have "k \<notin> set xs" by simp
    then show ?thesis using True by (simp add: sum_list_unbumped)
  next
    case False
    with Cons show ?thesis by simp
  qed
qed

lemma all_categories_complete: "distinct all_categories \<and> c \<in> set all_categories"
  by (cases c) (simp_all add: all_categories_def)

lemma all_severities_complete: "distinct all_severities \<and> v \<in> set all_severities"
  by (cases v) (simp_all add: all_severities_def)

lemma category_count_record:
  "category_count (record_error_metrics clk m cat sev) c =
     (if c = cat then category_count m cat + 1 else category_count m c)"
  by (simp add: category_count_def record_error_metrics_def dict_get_increment)

lemma severity_count_record:
  "severity_count (record_error_metrics clk m cat sev) v =
     (if v = sev then severity_count m sev + 1 else severity_count m v)"
  by (simp add: severity_count_def record_error_metrics_def dict_get_increment)

lemma sum_by_category_record:
  "sum_by_category (record_error_metrics clk m cat sev) = sum_by_category m + 1"
  unfolding sum_by_category_def
  using sum_list_bump [of all_categories cat "category_count m"] all_categories_complete [of cat]
  by (simp add: category_count_record [abs_def])

lemma sum_by_severity_record:
  "sum_by_severity (record_error_metrics clk m cat sev) = sum_by_severity m + 1"
  unfolding sum_by_severity_def
  using sum_list_bump [of all_severities sev "severity_count m"] all_severities_complete [of sev]
  by (simp add: severity_count_record [abs_def])

lemma total_errors_record: "total_errors (record_error_metrics clk m cat sev) = total_errors m + 1"
  by (simp add: record_error_metrics_def)

lemma record_consistent:
  "metrics_consistent m \<Longrightarrow> metrics_consistent (record_error_metrics clk m cat sev)"
  by (simp add: metrics_consistent_def sum_by_category_record sum_by_severity_record
      total_errors_record category_count_record severity_count_record)

lemma handle_metrics:
  "error_metrics (snd (handle_prediction_error clk h e c)) =
     record_error_metrics clk (error_metrics h) (fst (classify_error e)) (snd (classify_error e))"
  by (cases c) (simp_all add: handle_prediction_error_def log_error_def Let_def)

lemma new_consistent: "metrics_consistent new_ErrorMetrics"
  by (simp add: metrics_consistent_def new_ErrorMetrics_def sum_by_category_def sum_by_severity_def
      category_count_def severity_count_def dict_get_def all_categories_def all_severities_def)

lemma handle_all_consistent:
  "metrics_consistent (error_metrics h) \<Longrightarrow> metrics_consistent (error_metrics (handle_all h calls))"
proof (induction h calls rule: handle_all.induct)
  case (1 h)
  then show ?case by simp
next
  case (2 h clk e c rest)
  then show ?case by (simp add: handle_metrics record_consistent)
qed

text \<open>
  C10. The error metrics stay consistent. After any run of error-handling calls on a
  fresh handler, and after one more call on any handler whose metrics are consistent,
  \<open>total_errors\<close> equals the sum of the per-category counters and the sum of the
  per-severity counters and no counter is negative; and no counter is smaller after a
  call than before it. This holds for every error and every context, also for those on
  which the handler answers with its fallback response.
\<close>

theorem error_metrics_consistent:
  "metrics_consistent (error_metrics (handle_all new_ErrorHandler calls)) \<and>
   (metrics_consistent (error_metrics h) \<longrightarrow>
      metrics_consistent (error_metrics (snd (handle_prediction_error clk h e c))) \<and>
      total_errors (error_metrics h) \<le> total_errors (error_metrics (snd (handle_prediction_error clk h e c))) \<and>
      (\<forall>cat. category_count (error_metrics h) cat
               \<le> category_count (error_metrics (snd (handle_prediction_error clk h e c))) cat) \<and>
      (\<forall>sev. severity_count (error_metrics h) sev
               \<le> severity_count (error_metrics (snd (handle_prediction_error clk h e c))) sev))"
proof -
  have "metrics_consistent (error_metrics new_ErrorHandler)"
    by (simp add: new_ErrorHandler_def new_consistent)
  then have a: "metrics_consistent (error_metrics (handle_all new_ErrorHandler calls))"
    by (rule handle_all_consistent)
  show ?thesis
    using a
    by (simp add: handle_metrics record_consistent total_errors_record category_count_record
        severity_count_record)
qed

theorem error_metrics_consistent_witness:
  "metrics_consistent (error_metrics new_ErrorHandler) \<and>
   metrics_consistent (error_metrics (snd (handle_prediction_error example_clock new_ErrorHandler
      (Exc (HTTPStatusError 429) ''Too Many Requests'') (ErrorContextObj example_error_context)))) \<and>
   total_errors (error_metrics (snd (handle_prediction_error example_clock new_ErrorHandler
      (Exc (HTTPStatusError 429) ''Too Many Requests'') (ErrorContextObj example_error_context)))) = 1 \<and>
   category_count (error_metrics (snd (handle_prediction_error example_clock new_ErrorHandler
      (Exc (HTTPStatusError 429) ''Too Many Requests'') (ErrorContextObj example_error_context))))
      RATE_LIMIT = 1"
proof -
  let ?h = "snd (handle_prediction_error example_clock new_ErrorHandler
      (Exc (HTTPStatusError 429) ''Too Many Requests'') (ErrorContextObj example_error_context))"
  have h0: "metrics_consistent (error_metrics new_ErrorHandler)"
    using error_metrics_consistent [of "[]"] by simp
  have h1: "metrics_consistent (error_metrics ?h)"
    using error_metrics_consistent [of "[]" new_ErrorHandler example_clock
        "Exc (HTTPStatusError 429) ''Too Many Requests''" "ErrorContextObj example_error_context"] h0
    by blast
  have t: "total_errors (error_metrics ?h) = 1"
    by (simp add: handle_prediction_error_def log_error_def Let_def record_error_metrics_def
        new_ErrorHandler_def new_ErrorMetrics_def)
  have c: "category_count (error_metrics ?h) RATE_LIMIT = 1"
    by (simp add: handle_prediction_error_def log_error_def Let_def record_error_metrics_def
        new_ErrorHandler_def new_ErrorMetrics_def category_count_def increment_def dict_get_def
        classify_error_def classify_http_status_def)
  show ?thesis using h0 h1 t c by simp
qed

section \<open>Properties of the endpoints\<close>

lemma handle_request_context:
  "handle_prediction_error clk h e (RequestContextObj ctx) =
     (fallback_response clk (Exc AttributeError ''RequestContext object has no attribute endpoint'')
        (RequestContextObj ctx),
      h\<lparr> error_metrics := record_error_metrics clk (error_metrics h)
            (fst (classify_error e)) (snd (classify_error e)) \<rparr>)"
  by (simp add: handle_prediction_error_def log_error_def Let_def)

lemma handle_error_context:
  "fst (handle_prediction_error clk h e (ErrorContextObj c)) =
     create_error_response clk e (fst (classify_error e)) (snd (classify_error e)) (ErrorContextObj c)"
  by (simp add: handle_prediction_error_def log_error_def Let_def)

lemma predict_failure:
  "\<not> is_http_exception (exc_class e) \<Longrightarrow>
     fst (predict clk h ctx (Inl e)) = Inl (Exc TypeError ''ErrorResponse object is not subscriptable'')"
  by (simp add: predict_def getitem_ErrorResponse_def split: prod.splits)

text \<open>
  C3. A dispatch failure is to leave \<open>predict\<close> as the classifier's structured response.
  On the source it does not: for an upstream failure (here the status 500 of the
  gateway's own test) the handler, given the endpoint's \<open>RequestContext\<close>, answers with
  its fallback response, and \<open>predict\<close> then subscripts that dataclass, so what leaves
  \<open>predict\<close> is a \<open>TypeError\<close>. \<open>predict_failure\<close> above shows the same for every
  exception other than an \<open>HTTPException\<close>.
\<close>

theorem predict_raises_TypeError:
  "fst (predict example_clock new_ErrorHandler example_request_context
          (Inl (Exc (HTTPStatusError 500) ''Internal Server Error''))) =
     Inl (Exc TypeError ''ErrorResponse object is not subscriptable'')"
  by (simp add: predict_def getitem_ErrorResponse_def split: prod.splits)

lemma process_responses_failure:
  "Inl e \<in> set gathered \<Longrightarrow>
     \<exists>t. fst (process_responses clk ctx i gathered processed h) = Inl t"
proof (induction clk ctx i gathered processed h rule: process_responses.induct)
  case (1 clk ctx i processed h)
  then show ?case by simp
next
  case (2 clk ctx i response rest processed h)
  then show ?case by simp
next
  case (3 clk ctx i e rest processed h)
  show ?case by (simp add: getitem_ErrorResponse_def split: prod.splits)
qed

lemma process_responses_all_ok:
  "process_responses clk ctx i (map Inr rs) processed h = (Inr (processed @ map Prediction rs), h)"
  by (induction rs arbitrary: i processed) simp_all

lemma select_prediction:
  "\<exists>a. select_responses keep (Prediction r # rest) = Inl a"
  by simp

lemma batch_predict_nonempty:
  assumes "gathered \<noteq> []"
  shows "fst (batch_predict clk h ctx gathered) = Inl batch_failed"
proof (cases "\<exists>e. Inl e \<in> set gathered")
  case True
  then obtain e where "Inl e \<in> set gathered" by blast
  from process_responses_failure [OF this, of clk ctx 0 "[]" h]
  obtain t where "fst (process_responses clk ctx 0 gathered [] h) = Inl t" by blast
  then show ?thesis
    by (cases "process_responses clk ctx 0 gathered [] h") (simp add: batch_predict_def)
next
  case False
  then have "\<forall>x \<in> set gathered. \<exists>r. x = Inr r"
    by (metis sum.exhaust_sel)
  then obtain rs where rs: "gathered = map Inr rs"
    by (metis ex_map_conv)
  with assms obtain r rest where "rs = r # rest" by (cases rs) auto
  with rs show ?thesis
    by (simp add: batch_predict_def process_responses_all_ok split: prod.splits sum.splits)
qed

lemma batch_predict_empty:
  "fst (batch_predict clk h ctx []) =
     Inr \<lparr> batch_id = rc_request_id ctx, total_requests = 0, successful_predictions = 0,
           failed_predictions = 0, responses = [] \<rparr>"
  by (simp add: batch_predict_def)

text \<open>
  C2. A batch is to give one output per request, in order, with the counts of the
  successes and the failures. On the source, five gathered outcomes of which those at
  indices 1 and 3 are exceptions end in \<open>HTTPException(500, "Batch prediction failed")\<close>:
  the loop subscripts the handler's \<open>ErrorResponse\<close> at index 1. \<open>batch_predict_nonempty\<close>
  above shows the same for every batch that is not empty; a batch without failures
  ends so when the counts call \<open>get\<close> on a \<open>LegacyPredictionResponse\<close>.
\<close>

theorem batch_predict_five_requests:
  "fst (batch_predict example_clock new_ErrorHandler example_request_context
          [Inr example_prediction,
           Inl (Exc HttpxConnectError ''Connection failed''),
           Inr example_prediction,
           Inl (Exc (HTTPStatusError 503) ''Service Unavailable''),
           Inr example_prediction]) =
     Inl (Exc (HTTPException 500) ''Batch prediction failed'')"
  by (simp add: batch_predict_def batch_failed_def getitem_ErrorResponse_def split: prod.splits)

section \<open>Properties of the circuit breaker\<close>

lemma dispatch_all_append:
  "dispatch_all cfg (xs @ ys) st = dispatch_all cfg ys (dispatch_all cfg xs st)"
  by (induction xs arbitrary: st) simp_all

lemma refused_call:
  assumes "phase cs = Open" "now < opened_at cs + recovery_timeout cfg"
  shows "protected_call cfg now func (cs, s) = (Inl circuit_open, cs, s)"
  using assms by (simp add: protected_call_def admit_def)

lemma closed_failure:
  assumes "phase cs = Closed" "outcome_at u (attempts_made u) = Inl e"
  shows "protected_call cfg now http_post (cs, u) =
           (Inl e, record_failure cfg now cs, u\<lparr> attempts_made := attempts_made u + 1 \<rparr>)"
  using assms by (simp add: protected_call_def admit_def http_post_def)

lemma closed_run:
  assumes "phase cs = Closed" "failure_count cs + length ts < failure_threshold cfg"
    "\<forall>n < length ts. \<exists>e. outcome_at u (attempts_made u + n) = Inl e"
  shows "phase (fst (dispatch_all cfg ts (cs, u))) = Closed \<and>
         failure_count (fst (dispatch_all cfg ts (cs, u))) = failure_count cs + length ts \<and>
         opened_at (fst (dispatch_all cfg ts (cs, u))) = opened_at cs \<and>
         attempts_made (snd (dispatch_all cfg ts (cs, u))) = attempts_made u + length ts \<and>
         outcome_at (snd (dispatch_all cfg ts (cs, u))) = outcome_at u"
  using assms
proof (induction ts arbitrary: cs u)
  case Nil
  then show ?case by simp
next
  case (Cons t ts)
  from Cons.prems(3) obtain e where e: "outcome_at u (attempts_made u) = Inl e"
    by force
  let ?cs = "record_failure cfg t cs"
  let ?u = "u\<lparr> attempts_made := attempts_made u + 1 \<rparr>"
  have step: "snd (protected_call cfg t http_post (cs, u)) = (?cs, ?u)"
    using closed_failure [OF Cons.prems(1) e] by simp
  have cs: "phase ?cs = Closed" "failure_count ?cs = failure_count cs + 1"
    "opened_at ?cs = opened_at cs"
    using Cons.prems(1,2) by (simp_all add: record_failure_def)
  have lt: "failure_count ?cs + length ts < failure_threshold cfg"
    using Cons.prems(2) cs by simp
  have fails: "\<forall>n < length ts. \<exists>e. outcome_at ?u (attempts_made ?u + n) = Inl e"
  proof (intro allI impI)
    fix n assume "n < length ts"
    then have "Suc n < length (t # ts)" by simp
    with Cons.prems(3) have "\<exists>e. outcome_at u (attempts_made u + Suc n) = Inl e" by blast
    then show "\<exists>e. outcome_at ?u (attempts_made ?u + n) = Inl e" by simp
  qed
  from Cons.IH [OF cs(1) lt fails] show ?case
    by (simp add: step cs)
qed

lemma opening_failure:
  assumes "phase cs = Closed" "failure_count cs + 1 = failure_threshold cfg"
    "outcome_at u (attempts_made u) = Inl e"
  shows "phase (fst (snd (protected_call cfg t http_post (cs, u)))) = Open \<and>
         failure_count (fst (snd (protected_call cfg t http_post (cs, u)))) = failure_threshold cfg \<and>
         opened_at (fst (snd (protected_call cfg t http_post (cs, u)))) = t \<and>
         attempts_made (snd (snd (protected_call cfg t http_post (cs, u)))) = attempts_made u + 1 \<and>
         outcome_at (snd (snd (protected_call cfg t http_post (cs, u)))) = outcome_at u"
  using assms closed_failure [OF assms(1,3), of cfg t]
  by (simp add: record_failure_def)

lemma threshold_run:
  assumes "length ts + 1 = failure_threshold cfg"
    "\<forall>n < length ts + 1. \<exists>e. outcome_at u (attempts_made u + n) = Inl e"
  shows "phase (fst (dispatch_all cfg (ts @ [t]) (new_CircuitState, u))) = Open \<and>
         failure_count (fst (dispatch_all cfg (ts @ [t]) (new_CircuitState, u))) = failure_threshold cfg \<and>
         opened_at (fst (dispatch_all cfg (ts @ [t]) (new_CircuitState, u))) = t \<and>
         attempts_made (snd (dispatch_all cfg (ts @ [t]) (new_CircuitState, u))) =
           attempts_made u + failure_threshold cfg \<and>
         outcome_at (snd (dispatch_all cfg (ts @ [t]) (new_CircuitState, u))) = outcome_at u"
proof -
  let ?st = "dispatch_all cfg ts (new_CircuitState, u)"
  have n: "phase new_CircuitState = Closed" "failure_count new_CircuitState = 0"
    by (simp_all add: new_CircuitState_def)
  have a: "failure_count new_CircuitState + length ts < failure_threshold cfg"
    using assms(1) n by simp
  have b: "\<forall>n < length ts. \<exists>e. outcome_at u (attempts_made u + n) = Inl e"
    using assms(2) by simp
  note run = closed_run [OF n(1) a b]
  from assms(2) obtain e where "outcome_at u (attempts_made u + length ts) = Inl e"
    by force
  with run have e: "outcome_at (snd ?st) (attempts_made (snd ?st)) = Inl e" by simp
  have c: "failure_count (fst ?st) + 1 = failure_threshold cfg"
    using run assms(1) n by simp
  have "phase (fst ?st) = Closed" using run by simp
  from opening_failure [OF this c e, of t] run assms(1)
  show ?thesis
    by (simp add: dispatch_all_append)
qed


lemma trial_admitted:
  assumes "phase cs = Open" "opened_at cs + recovery_timeout cfg \<le> now"
  shows "admit cfg now cs = (True, cs\<lparr> phase := HalfOpen \<rparr>) \<and>
         (\<forall>later. admit cfg later (cs\<lparr> phase := HalfOpen \<rparr>) = (False, cs\<lparr> phase := HalfOpen \<rparr>))"
  using assms by (simp add: admit_def)

lemma trial_success:
  assumes "phase cs = Open" "opened_at cs + recovery_timeout cfg \<le> now"
    "outcome_at u (attempts_made u) = Inr v"
  shows "fst (protected_call cfg now http_post (cs, u)) = Inr v \<and>
         phase (fst (snd (protected_call cfg now http_post (cs, u)))) = Closed \<and>
         failure_count (fst (snd (protected_call cfg now http_post (cs, u)))) = 0"
  using assms by (simp add: protected_call_def admit_def http_post_def record_success_def)

lemma trial_failure:
  assumes "phase cs = Open" "opened_at cs + recovery_timeout cfg \<le> now"
    "outcome_at u (attempts_made u) = Inl e"
  shows "fst (protected_call cfg now http_post (cs, u)) = Inl e \<and>
         phase (fst (snd (protected_call cfg now http_post (cs, u)))) = Open \<and>
         opened_at (fst (snd (protected_call cfg now http_post (cs, u)))) = now"
  using assms by (simp add: protected_call_def admit_def http_post_def record_failure_def)

lemma transitions_allowed:
  "allowed_transition (phase cs) (phase (snd (admit cfg now cs))) \<and>
   allowed_transition (phase cs) (phase (record_failure cfg now cs)) \<and>
   allowed_transition (phase cs) (phase (record_success cs))"
  by (cases "phase cs")
    (simp_all add: allowed_transition_def admit_def record_failure_def record_success_def)

lemma closed_before_threshold:
  assumes "length ts + 1 = failure_threshold cfg"
    "\<forall>n < length ts + 1. \<exists>e. outcome_at u (attempts_made u + n) = Inl e" "k \<le> length ts"
  shows "phase (fst (dispatch_all cfg (take k ts) (new_CircuitState, u))) = Closed"
proof -
  have n: "phase new_CircuitState = Closed" "failure_count new_CircuitState = 0"
    by (simp_all add: new_CircuitState_def)
  have a: "failure_count new_CircuitState + length (take k ts) < failure_threshold cfg"
    using assms(1,3) n by simp
  have b: "\<forall>n < length (take k ts). \<exists>e. outcome_at u (attempts_made u + n) = Inl e"
    using assms(2,3) by simp
  from closed_run [OF n(1) a b] show ?thesis by simp
qed

text \<open>
  C4. The breaker's protocol, for the breaker of any one target and any configuration
  with a positive threshold. Starting from a new breaker, let as many dispatches as the
  threshold fail one after the other, the last at time \<open>t\<close>. Before the last of them the
  breaker is still Closed and every dispatch made its network attempt; after it the
  breaker is Open with \<open>opened_at = t\<close>. A call before \<open>t + recovery_timeout\<close> then fails
  at once with the circuit-open error and leaves breaker and upstream as they were: no
  network attempt. A call at or after \<open>t + recovery_timeout\<close> is admitted and puts the
  breaker in HalfOpen, where it admits no further caller; when that trial succeeds the
  breaker is Closed with \<open>failure_count = 0\<close>, when it fails the breaker is Open again
  with \<open>opened_at\<close> the time of the trial, and refuses calls for another
  \<open>recovery_timeout\<close>. Every step of the breaker leaves the phase as
  it is or moves it along Closed to Open, Open to HalfOpen, HalfOpen to Closed or Open.
\<close>

theorem circuit_breaker_protocol:
  assumes "length ts + 1 = failure_threshold cfg"
    and "\<forall>n < length ts + 1. \<exists>e. outcome_at u (attempts_made u + n) = Inl e"
    and "st = dispatch_all cfg (ts @ [t]) (new_CircuitState, u)"
  shows
    "(\<forall>k \<le> length ts. phase (fst (dispatch_all cfg (take k ts) (new_CircuitState, u))) = Closed) \<and>
     phase (fst st) = Open \<and> opened_at (fst st) = t \<and>
     failure_count (fst st) = failure_threshold cfg \<and>
     attempts_made (snd st) = attempts_made u + failure_threshold cfg \<and>
     (\<forall>now. now < t + recovery_timeout cfg \<longrightarrow>
        protected_call cfg now http_post st = (Inl circuit_open, st)) \<and>
     (\<forall>now. t + recovery_timeout cfg \<le> now \<longrightarrow>
        admit cfg now (fst st) = (True, (fst st)\<lparr> phase := HalfOpen \<rparr>) \<and>
        (\<forall>later. fst (admit cfg later ((fst st)\<lparr> phase := HalfOpen \<rparr>)) = False) \<and>
        (\<forall>v. outcome_at u (attempts_made u + failure_threshold cfg) = Inr v \<longrightarrow>
           fst (protected_call cfg now http_post st) = Inr v \<and>
           phase (fst (snd (protected_call cfg now http_post st))) = Closed \<and>
           failure_count (fst (snd (protected_call cfg now http_post st))) = 0) \<and>
        (\<forall>e. outcome_at u (attempts_made u + failure_threshold cfg) = Inl e \<longrightarrow>
           fst (protected_call cfg now http_post st) = Inl e \<and>
           phase (fst (snd (protected_call cfg now http_post st))) = Open \<and>
           opened_at (fst (snd (protected_call cfg now http_post st))) = now \<and>
           (\<forall>later. later < now + recovery_timeout cfg \<longrightarrow>
              protected_call cfg later http_post (snd (protected_call cfg now http_post st)) =
                (Inl circuit_open, snd (protected_call cfg now http_post st))))) \<and>
     (\<forall>cs now. allowed_transition (phase cs) (phase (snd (admit cfg now cs))) \<and>
        allowed_transition (phase cs) (phase (record_failure cfg now cs)) \<and>
        allowed_transition (phase cs) (phase (record_success cs)))"
proof -
  note run = threshold_run [OF assms(1,2), of t, folded assms(3)]
  have opn: "phase (fst st) = Open" and at: "opened_at (fst st) = t"
    and cnt: "failure_count (fst st) = failure_threshold cfg"
    and made: "attempts_made (snd st) = attempts_made u + failure_threshold cfg"
    and same: "outcome_at (snd st) = outcome_at u"
    using run by simp_all
  have st: "st = (fst st, snd st)" by simp
  have before: "\<forall>k \<le> length ts.
      phase (fst (dispatch_all cfg (take k ts) (new_CircuitState, u))) = Closed"
    using closed_before_threshold [OF assms(1,2)] by blast
  have refused: "protected_call cfg now http_post st = (Inl circuit_open, st)"
    if "now < t + recovery_timeout cfg" for now
    using refused_call [of "fst st" now cfg http_post "snd st"] opn at that by simp
  have trial: "admit cfg now (fst st) = (True, (fst st)\<lparr> phase := HalfOpen \<rparr>) \<and>
        (\<forall>later. fst (admit cfg later ((fst st)\<lparr> phase := HalfOpen \<rparr>)) = False) \<and>
        (\<forall>v. outcome_at u (attempts_made u + failure_threshold cfg) = Inr v \<longrightarrow>
           fst (protected_call cfg now http_post st) = Inr v \<and>
           phase (fst (snd (protected_call cfg now http_post st))) = Closed \<and>
           failure_count (fst (snd (protected_call cfg now http_post st))) = 0) \<and>
        (\<forall>e. outcome_at u (attempts_made u + failure_threshold cfg) = Inl e \<longrightarrow>
           fst (protected_call cfg now http_post st) = Inl e \<and>
           phase (fst (snd (protected_call cfg now http_post st))) = Open \<and>
           opened_at (fst (snd (protected_call cfg now http_post st))) = now \<and>
           (\<forall>later. later < now + recovery_timeout cfg \<longrightarrow>
              protected_call cfg later http_post (snd (protected_call cfg now http_post st)) =
                (Inl circuit_open, snd (protected_call cfg now http_post st))))"
    if d: "t + recovery_timeout cfg \<le> now" for now
  proof -
    have d': "opened_at (fst st) + recovery_timeout cfg \<le> now" using d at by simp
    have o: "outcome_at (snd st) (attempts_made (snd st)) =
        outcome_at u (attempts_made u + failure_threshold cfg)"
      using made same by simp
    have again: "protected_call cfg later http_post (snd (protected_call cfg now http_post st)) =
        (Inl circuit_open, snd (protected_call cfg now http_post st))"
      if f: "outcome_at u (attempts_made u + failure_threshold cfg) = Inl e"
        and l: "later < now + recovery_timeout cfg" for e later
    proof -
      let ?st = "snd (protected_call cfg now http_post st)"
      from trial_failure [OF opn d', of "snd st" e] f o
      have "phase (fst ?st) = Open" "opened_at (fst ?st) = now" by simp_all
      with l refused_call [of "fst ?st" later cfg http_post "snd ?st"] show ?thesis by simp
    qed
    show ?thesis
      using trial_admitted [OF opn d'] trial_success [OF opn d', of "snd st"]
        trial_failure [OF opn d', of "snd st"] o again
      by simp
  qed
  show ?thesis
    using before opn at cnt made refused trial transitions_allowed by blast
qed

theorem circuit_breaker_protocol_witness:
  "length [1, 2, 3, 4 :: real] + 1 = failure_threshold gateway_circuit \<and>
   call_azure_ml_api 20
       (dispatch_all gateway_circuit [1, 2, 3, 4, 5] (new_CircuitState, recovering_upstream)) =
     (Inl circuit_open,
      dispatch_all gateway_circuit [1, 2, 3, 4, 5] (new_CircuitState, recovering_upstream)) \<and>
   attempts_made
       (snd (dispatch_all gateway_circuit [1, 2, 3, 4, 5] (new_CircuitState, recovering_upstream))) = 5 \<and>
   fst (call_azure_ml_api 35
       (dispatch_all gateway_circuit [1, 2, 3, 4, 5] (new_CircuitState, recovering_upstream))) =
     Inr ''0.85'' \<and>
   phase (fst (snd (call_azure_ml_api 35
       (dispatch_all gateway_circuit [1, 2, 3, 4, 5] (new_CircuitState, recovering_upstream))))) =
     Closed"
proof -
  let ?st = "dispatch_all gateway_circuit [1, 2, 3, 4, 5] (new_CircuitState, recovering_upstream)"
  have len: "length [1, 2, 3, 4 :: real] + 1 = failure_threshold gateway_circuit"
    by (simp add: gateway_circuit_def)
  have fails: "\<forall>n < length [1, 2, 3, 4 :: real] + 1.
      \<exists>e. outcome_at recovering_upstream (attempts_made recovering_upstream + n) = Inl e"
    by (simp add: recovering_upstream_def)
  have st: "?st = dispatch_all gateway_circuit ([1, 2, 3, 4] @ [5])
      (new_CircuitState, recovering_upstream)"
    by simp
  note p = circuit_breaker_protocol [OF len fails st]
  have rt: "recovery_timeout gateway_circuit = 30" "failure_threshold gateway_circuit = 5"
    by (simp_all add: gateway_circuit_def)
  have o: "outcome_at recovering_upstream
      (attempts_made recovering_upstream + failure_threshold gateway_circuit) = Inr ''0.85''"
    by (simp add: recovering_upstream_def rt)
  have a: "call_azure_ml_api 20 ?st = (Inl circuit_open, ?st)"
    using p rt by (simp add: call_azure_ml_api_def)
  have b: "attempts_made (snd ?st) = 5"
    using p rt by (simp add: recovering_upstream_def)
  have "(5::real) + recovery_timeout gateway_circuit \<le> 35" by (simp add: rt)
  with p o have c: "fst (protected_call gateway_circuit 35 http_post ?st) = Inr ''0.85'' \<and>
      phase (fst (snd (protected_call gateway_circuit 35 http_post ?st))) = Closed"
    by blast
  show ?thesis using len a b c by (simp add: call_azure_ml_api_def)
qed

section \<open>Further properties\<close>

text \<open>The error log never grows beyond its 1000 entries.\<close>

lemma keep_recent_bounded: "length (keep_recent l) \<le> 1000"
  by (simp add: keep_recent_def)

lemma error_log_bounded:
  "length (error_log h) \<le> 1000 \<Longrightarrow>
     length (error_log (snd (handle_prediction_error clk h e c))) \<le> 1000"
  by (cases c) (simp_all add: handle_prediction_error_def log_error_def Let_def keep_recent_bounded)

text \<open>
  The breaker table of \<open>CircuitBreakerManager\<close>: a call for one endpoint leaves the
  breakers of all other endpoints as they are; the breaker of an endpoint is created
  with the parameters of the first request for it and keeps them afterwards.
\<close>

lemma call_endpoint_other_targets:
  "other \<noteq> endpoint \<Longrightarrow> fst (snd (call_endpoint m endpoint cfg now func s)) other = m other"
  by (simp add: call_endpoint_def get_circuit_breaker_def split: option.splits prod.splits)

lemma call_endpoint_existing:
  "m endpoint = Some (c, cs) \<Longrightarrow>
     fst (snd (call_endpoint m endpoint cfg now func s)) endpoint =
       Some (c, fst (snd (protected_call c now func (cs, s))))"
  by (simp add: call_endpoint_def get_circuit_breaker_def split: prod.splits)

lemma call_endpoint_first_use:
  "m endpoint = None \<Longrightarrow>
     fst (snd (call_endpoint m endpoint cfg now func s)) endpoint =
       Some (cfg, fst (snd (protected_call cfg now func (new_CircuitState, s))))"
  by (simp add: call_endpoint_def get_circuit_breaker_def split: prod.splits)

text \<open>
  \<open>should_retry\<close>: of the upstream statuses exactly 429, 502, 503 and 504 are retried,
  and nothing is retried once the attempt number has reached \<open>max_attempts\<close>.
\<close>

lemma should_retry_statuses:
  "attempt < max_attempts p \<Longrightarrow>
     should_retry p (Exc (HTTPStatusError status) msg) attempt \<longleftrightarrow>
       status = 429 \<or> status = 502 \<or> status = 503 \<or> status = 504"
  by (auto simp: should_retry_def is_retryable_def)

lemma should_retry_exhausted: "max_attempts p \<le> attempt \<Longrightarrow> \<not> should_retry p e attempt"
  by (simp add: should_retry_def)

section \<open>Properties of the retry delay\<close>

lemma float_pow_in_range: "\<bar>x ^ n\<bar> < 2 ^ 1024 \<Longrightarrow> float_pow x n = Inr (x ^ n)"
  by (simp add: float_pow_def)

lemma float_pow_overflow:
  "2 ^ 1024 \<le> \<bar>x ^ n\<bar> \<Longrightarrow>
     float_pow x n = Inl (Exc OverflowError ''(34, Numerical result out of range)'')"
  by (simp add: float_pow_def)

lemma get_delay_in_range:
  assumes "\<bar>exponential_base p ^ n\<bar> < 2 ^ 1024"
  shows "get_delay p rnd n =
           Inr (min (base_delay p * exponential_base p ^ n) (max_delay p) *
                (if jitter p then 0.5 + rnd * 0.5 else 1))"
  using assms by (simp add: get_delay_def float_pow_in_range Let_def)

lemma get_delay_overflow:
  assumes "2 ^ 1024 \<le> \<bar>exponential_base p ^ n\<bar>"
  shows "get_delay p rnd n = Inl (Exc OverflowError ''(34, Numerical result out of range)'')"
  using assms by (simp add: get_delay_def float_pow_overflow)

lemma jitter_factor_range:
  assumes "0 \<le> rnd" "rnd < 1"
  shows "1 / 2 \<le> (if jitter p then 0.5 + rnd * 0.5 else (1::real)) \<and>
         (if jitter p then 0.5 + rnd * 0.5 else (1::real)) \<le> 1"
  using assms by simp

lemma scaled_delay_bounds:
  assumes "1 / 2 \<le> f" "f \<le> 1" "0 \<le> (c::real)" "c \<le> m"
  shows "c * f \<le> m \<and> c / 2 \<le> c * f"
proof -
  have "c * f \<le> c * 1" using assms by (intro mult_left_mono) simp_all
  moreover have "c * (1 / 2) \<le> c * f" using assms by (intro mult_left_mono) simp_all
  ultimately show ?thesis using assms(4) by simp
qed

text \<open>
  C9, as amended. The delay before the next retry, for every random draw \<open>rnd\<close> in
  \<open>[0, 1)\<close>. For every attempt number \<open>n\<close> whose power \<open>exponential_base ^ n\<close> is in
  the range of a double, \<open>get_delay\<close> returns
  \<open>min(base_delay * exponential_base^n, max_delay)\<close> times the factor
  \<open>0.5 + rnd * 0.5\<close> when jitter is on and times 1 when it is off; the factor lies in
  \<open>[0.5, 1.0]\<close>. If moreover \<open>base_delay\<close>, \<open>exponential_base\<close> and \<open>max_delay\<close> are not
  negative, the delay does not exceed \<open>max_delay\<close> and is not below half the capped
  exponential value. For an attempt number whose power is out of range, \<open>get_delay\<close>
  returns no delay: it raises \<open>OverflowError\<close>. Rounding is not modelled.
\<close>

theorem get_delay_jitter_bounds:
  assumes "0 \<le> rnd" "rnd < 1"
  shows
    "(\<bar>exponential_base p ^ n\<bar> < 2 ^ 1024 \<longrightarrow>
        get_delay p rnd n =
          Inr (min (base_delay p * exponential_base p ^ n) (max_delay p) *
               (if jitter p then 0.5 + rnd * 0.5 else 1)) \<and>
        1 / 2 \<le> (if jitter p then 0.5 + rnd * 0.5 else (1::real)) \<and>
        (if jitter p then 0.5 + rnd * 0.5 else (1::real)) \<le> 1 \<and>
        (0 \<le> base_delay p \<and> 0 \<le> exponential_base p \<and> 0 \<le> max_delay p \<longrightarrow>
           (\<exists>d. get_delay p rnd n = Inr d \<and> d \<le> max_delay p \<and>
                min (base_delay p * exponential_base p ^ n) (max_delay p) / 2 \<le> d))) \<and>
     (2 ^ 1024 \<le> \<bar>exponential_base p ^ n\<bar> \<longrightarrow>
        get_delay p rnd n = Inl (Exc OverflowError ''(34, Numerical result out of range)''))"
proof -
  let ?c = "min (base_delay p * exponential_base p ^ n) (max_delay p)"
  let ?f = "if jitter p then 0.5 + rnd * 0.5 else (1::real)"
  note f = jitter_factor_range [OF assms, of p]
  have bounds: "\<exists>d. get_delay p rnd n = Inr d \<and> d \<le> max_delay p \<and> ?c / 2 \<le> d"
    if r: "\<bar>exponential_base p ^ n\<bar> < 2 ^ 1024"
      and pos: "0 \<le> base_delay p \<and> 0 \<le> exponential_base p \<and> 0 \<le> max_delay p"
  proof -
    have c0: "0 \<le> ?c" using pos by simp
    have cm: "?c \<le> max_delay p" by simp
    from scaled_delay_bounds [of ?f ?c "max_delay p"] f c0 cm
    have "?c * ?f \<le> max_delay p \<and> ?c / 2 \<le> ?c * ?f" by blast
    with get_delay_in_range [OF r, of rnd] show ?thesis by blast
  qed
  show ?thesis
    using get_delay_in_range [of p n rnd] get_delay_overflow [of p n rnd] f bounds by blast
qed

theorem get_delay_jitter_bounds_witness:
  "(0::real) \<le> 1 / 2 \<and> (1 / 2 :: real) < 1 \<and>
   \<bar>exponential_base new_RetryPolicy ^ 1\<bar> < 2 ^ 1024 \<and>
   get_delay new_RetryPolicy (1 / 2) 1 = Inr (3 / 2) \<and>
   (\<exists>d. get_delay new_RetryPolicy (1 / 2) 1 = Inr d \<and> d \<le> max_delay new_RetryPolicy \<and>
      min (base_delay new_RetryPolicy * exponential_base new_RetryPolicy ^ 1)
        (max_delay new_RetryPolicy) / 2 \<le> d) \<and>
   2 ^ 1024 \<le> \<bar>exponential_base new_RetryPolicy ^ 1024\<bar> \<and>
   get_delay new_RetryPolicy (1 / 2) 1024 =
     Inl (Exc OverflowError ''(34, Numerical result out of range)'')"
proof -
  have h: "(0::real) \<le> 1 / 2" "(1 / 2 :: real) < 1" by simp_all
  have r: "\<bar>exponential_base new_RetryPolicy ^ 1\<bar> < 2 ^ 1024"
    by (simp add: new_RetryPolicy_def)
  have o: "2 ^ 1024 \<le> \<bar>exponential_base new_RetryPolicy ^ 1024\<bar>"
    by (simp add: new_RetryPolicy_def)
  have pos: "0 \<le> base_delay new_RetryPolicy \<and> 0 \<le> exponential_base new_RetryPolicy \<and>
             0 \<le> max_delay new_RetryPolicy"
    by (simp add: new_RetryPolicy_def)
  note t1 = get_delay_jitter_bounds [OF h, of new_RetryPolicy 1]
  note t2 = get_delay_jitter_bounds [OF h, of new_RetryPolicy 1024]
  from t1 r have "get_delay new_RetryPolicy (1 / 2) 1 =
      Inr (min (base_delay new_RetryPolicy * exponential_base new_RetryPolicy ^ 1)
             (max_delay new_RetryPolicy) *
           (if jitter new_RetryPolicy then 0.5 + 1 / 2 * 0.5 else 1))"
    by blast
  then have v: "get_delay new_RetryPolicy (1 / 2) 1 = Inr (3 / 2)"
    by (simp add: new_RetryPolicy_def)
  from t1 r pos have b: "\<exists>d. get_delay new_RetryPolicy (1 / 2) 1 = Inr d \<and>
      d \<le> max_delay new_RetryPolicy \<and>
      min (base_delay new_RetryPolicy * exponential_base new_RetryPolicy ^ 1)
        (max_delay new_RetryPolicy) / 2 \<le> d"
    by blast
  from t2 o have ov: "get_delay new_RetryPolicy (1 / 2) 1024 =
      Inl (Exc OverflowError ''(34, Numerical result out of range)'')"
    by blast
  show ?thesis using h r v b o ov by blast
qed

text \<open>
  C9 as stated fails on the source in two ways. It speaks of every attempt number, and
  with the default policy attempt 1024 has no delay: \<open>2.0 ** 1024\<close> raises
  \<open>OverflowError\<close>. And its two bounds do not hold for every policy the constructor
  accepts: with \<open>max_delay = -2\<close> and the draw \<open>0.5\<close> the delay of attempt 0 is \<open>-1.5\<close>,
  above \<open>max_delay\<close> and below half the capped value \<open>-2\<close>.
\<close>

theorem get_delay_claim_counterexample:
  "get_delay new_RetryPolicy (1 / 2) 1024 =
     Inl (Exc OverflowError ''(34, Numerical result out of range)'') \<and>
   get_delay \<lparr> max_attempts = 3, base_delay = 1, max_delay = - 2, exponential_base = 2,
               jitter = True \<rparr> (1 / 2) 0 = Inr (- 3 / 2) \<and>
   max_delay \<lparr> max_attempts = 3, base_delay = 1, max_delay = - 2, exponential_base = 2,
               jitter = True \<rparr> < - 3 / 2 \<and>
   - 3 / 2 <
     min (base_delay \<lparr> max_attempts = 3, base_delay = 1, max_delay = - 2, exponential_base = 2,
                        jitter = True \<rparr> *
          exponential_base \<lparr> max_attempts = 3, base_delay = 1, max_delay = - 2,
                               exponential_base = 2, jitter = True \<rparr> ^ 0)
         (max_delay \<lparr> max_attempts = 3, base_delay = 1, max_delay = - 2, exponential_base = 2,
                        jitter = True \<rparr>) / 2"
  by (simp add: get_delay_def float_pow_def new_RetryPolicy_def)

section \<open>Properties of retry under the circuit breaker\<close>



lemma retry_op_parts:
  "fst (retry_op p rnd func s) = fst (retry_with_backoff p rnd func s) \<and>
   snd (retry_op p rnd func s) = fst (snd (retry_with_backoff p rnd func s))"
  by (simp add: retry_op_def case_prod_beta)




lemma retry_stops_on_other_errors:
  assumes "outcome_at u (attempts_made u) = Inl e" "\<not> should_retry p e 0" "0 < max_attempts p"
  shows "fst (retry_op p rnd http_post u) = Inl e \<and>
         attempts_made (snd (retry_op p rnd http_post u)) = attempts_made u + 1"
proof -
  have "[0..<max_attempts p] = 0 # [1..<max_attempts p]"
    using assms(3) by (simp add: upt_conv_Cons)
  with assms show ?thesis
    by (simp add: retry_op_parts retry_with_backoff_def http_post_def raise_last_def)
qed

text \<open>
  A call the breaker admits records the outcome of the protected function once.
\<close>

lemma admitted_failure:
  assumes "fst (admit cfg now cs)" "fst (func s) = Inl e"
  shows "fst (protected_call cfg now func (cs, s)) = Inl e \<and>
         failure_count (fst (snd (protected_call cfg now func (cs, s)))) = failure_count cs + 1 \<and>
         snd (snd (protected_call cfg now func (cs, s))) = snd (func s)"
  using assms
  by (cases "phase cs"; cases "func s")
    (auto simp: protected_call_def admit_def record_failure_def split: if_splits)

lemma admitted_success:
  assumes "fst (admit cfg now cs)" "fst (func s) = Inr v"
  shows "fst (protected_call cfg now func (cs, s)) = Inr v \<and>
         failure_count (fst (snd (protected_call cfg now func (cs, s)))) \<le> failure_count cs \<and>
         (phase cs = Closed \<longrightarrow>
            failure_count (fst (snd (protected_call cfg now func (cs, s)))) = failure_count cs) \<and>
         snd (snd (protected_call cfg now func (cs, s))) = snd (func s)"
  using assms
  by (cases "phase cs"; cases "func s")
    (auto simp: protected_call_def admit_def record_success_def split: if_splits)


text \<open>
  The gateway's own dispatch is one attempt of \<open>call_azure_ml_api\<close> under the breaker.
\<close>

lemma gateway_dispatch_single_attempt:
  assumes "fst (admit gateway_circuit now cs)"
  shows "attempts_made (snd (snd (call_azure_ml_api now (cs, u)))) = attempts_made u + 1"
proof (cases "outcome_at u (attempts_made u)")
  case (Inl e)
  then have "fst (http_post u) = Inl e" by (simp add: http_post_def)
  from admitted_failure [of gateway_circuit now cs http_post u e] assms this show ?thesis
    by (simp add: call_azure_ml_api_def http_post_def)
next
  case (Inr v)
  then have "fst (http_post u) = Inr v" by (simp add: http_post_def)
  from admitted_success [of gateway_circuit now cs http_post u v] assms this show ?thesis
    by (simp add: call_azure_ml_api_def http_post_def)
qed



end
